theory Spec2Isabelle
  imports Complex_Main
begin

section \<open>The ArUco ROS node (ArucoNode.cpp)\<close>

text \<open>
  A shallow embedding of \<^verbatim>\<open>src/aruco/src/ros/ArucoNode.cpp\<close>: the node's global state, its
  four callbacks (\<^verbatim>\<open>onFrame\<close>, \<open>onCameraInfo\<close>, \<open>onMarkerRegister\<close>, \<open>onMarkerRemove\<close>), the helper
  \<open>stringToDoubleArray\<close> and the parameter handling of \<open>main\<close>.

  Conventions of the embedding.
  \<^item> \<^verbatim>\<open>double\<close> and \<^verbatim>\<open>float\<close> values are modelled as real numbers: \<open>sqrt\<close>, \<open>sin\<close>, \<open>cos\<close> and the
    arithmetic are exact. Negation and permutation of components, which is all the
    coordinate conversion does, are exact on IEEE doubles as well.
  \<^item> \<^verbatim>\<open>int\<close> is a 32-bit two's complement integer: results of \<open>+\<close> are wrapped by \<open>int32\<close>
    (C++ leaves signed overflow undefined; the theorems state where no overflow occurs).
    \<^verbatim>\<open>/\<close> and \<^verbatim>\<open>%\<close> truncate towards zero (\<open>c_div\<close>, \<open>c_mod\<close>).
  \<^item> \<^verbatim>\<open>unsigned int\<close> has 32 bits; the width of \<^verbatim>\<open>size_t\<close> is a parameter \<open>bits\<close>
    (64 on the LP64 and LLP64 platforms ROS 2 runs on, 32 on ILP32).
  \<^item> OpenCV, cv_bridge and the C++ standard library are not part of the repository: the
    functions the node calls (\<open>getMarkers\<close>, \<open>solvePnP\<close>, \<open>Rodrigues\<close>, \<open>toCvShare\<close>, \<open>std::stod\<close>)
    are parameters of the model.
  \<^item> A C++ exception and an access outside an array are values of type \<open>error\<close>.
\<close>

subsection \<open>Machine integers\<close>

definition int32 :: "int \<Rightarrow> int" where
  "int32 x = (x + 2147483648) mod 4294967296 - 2147483648"

definition c_div :: "int \<Rightarrow> int \<Rightarrow> int" where
  "c_div a b = sgn a * sgn b * (\<bar>a\<bar> div \<bar>b\<bar>)"

definition c_mod :: "int \<Rightarrow> int \<Rightarrow> int" where
  "c_mod a b = a - b * c_div a b"

text \<open>The largest \<^verbatim>\<open>size_t\<close>, which is \<^verbatim>\<open>std::string::npos\<close>.\<close>

definition size_t_max :: "nat \<Rightarrow> nat" where
  "size_t_max bits = 2 ^ bits - 1"

text \<open>Conversion of a \<^verbatim>\<open>size_t\<close> to \<^verbatim>\<open>unsigned int\<close>: the low 32 bits.\<close>

definition to_unsigned_int :: "nat \<Rightarrow> nat" where
  "to_unsigned_int n = n mod 4294967296"

subsection \<open>Data\<close>

type_synonym point2 = "real \<times> real"
type_synonym point3 = "real \<times> real \<times> real"
type_synonym mat3 = "point3 \<times> point3 \<times> point3"
type_synonym quaternion = "real \<times> real \<times> real \<times> real"

datatype error = Invalid_argument | Out_of_range | Out_of_bounds

text \<open>
  \<^verbatim>\<open>ArucoMarkerInfo\<close> (declared in \<^verbatim>\<open>../ArucoMarkerInfo.cpp\<close>, which the node includes): id, size,
  world position and rotation, and the world corner points the node reads as
  \<^verbatim>\<open>known[j].world[k]\<close>. The constructor computes the corners from the other attributes; that
  computation is the parameter \<open>corners\<close> of \<open>new_ArucoMarkerInfo\<close>.
\<close>

record ArucoMarkerInfo =
  info_id :: int
  info_size :: real
  info_position :: point3
  info_rotation :: point3
  info_world :: "point3 list"

definition new_ArucoMarkerInfo ::
  "(real \<Rightarrow> point3 \<Rightarrow> point3 \<Rightarrow> point3 list) \<Rightarrow> int \<Rightarrow> real \<Rightarrow> point3 \<Rightarrow> point3 \<Rightarrow> ArucoMarkerInfo" where
  "new_ArucoMarkerInfo corners i sz pos rot =
     \<lparr>info_id = i, info_size = sz, info_position = pos, info_rotation = rot,
      info_world = corners sz pos rot\<rparr>"

text \<open>
  \<^verbatim>\<open>ArucoMarker\<close> (declared in \<^verbatim>\<open>../ArucoMarker.cpp\<close>): the id the detector decoded, the image
  corners read as \<^verbatim>\<open>markers[i].projected[k]\<close>, and the info \<^verbatim>\<open>attachInfo\<close> stores.
\<close>

record ArucoMarker =
  marker_id :: int
  projected :: "point2 list"
  attached :: "ArucoMarkerInfo option"

text \<open>The global variables of the node.\<close>

record node =
  calibration :: "real list"
  distortion :: "real list"
  known :: "ArucoMarkerInfo list"
  calibrated :: bool
  use_opencv_coords :: bool
  debug :: bool
  cosine_limit :: real
  max_error_quad :: real
  theshold_block_size :: int
  theshold_block_size_min :: int
  theshold_block_size_max :: int
  min_area :: int

text \<open>The messages the node receives and publishes.\<close>

record CameraInfo =
  cam_k :: "real list"
  cam_d :: "real list"

record Marker_msg =
  msg_id :: int
  msg_size :: real
  posx :: real
  posy :: real
  posz :: real
  rotx :: real
  roty :: real
  rotz :: real

record PoseStamped =
  frame_id :: string
  stamp :: nat
  pose_position :: point3
  pose_orientation :: quaternion

datatype published =
  Pub_position point3
  | Pub_rotation point3
  | Pub_pose PoseStamped
  | Pub_visible bool

datatype notice = Replaced int | Added int | Removed int

text \<open>
  The library functions \<^verbatim>\<open>onFrame\<close> calls: \<^verbatim>\<open>cv_bridge::toCvShare\<close> (\<open>None\<close> when it throws
  \<^verbatim>\<open>cv_bridge::Exception\<close>), \<^verbatim>\<open>ArucoDetector::getMarkers\<close>, \<^verbatim>\<open>cv::solvePnP\<close> (returning the
  rotation and the translation it writes) and the two directions of \<^verbatim>\<open>cv::Rodrigues\<close>.
\<close>

record ('m, 'f) opencv =
  toCvShare :: "'m \<Rightarrow> 'f option"
  getMarkers :: "'f \<Rightarrow> real \<Rightarrow> int \<Rightarrow> int \<Rightarrow> real \<Rightarrow> ArucoMarker list"
  solvePnP :: "point3 list \<Rightarrow> point2 list \<Rightarrow> real list \<Rightarrow> real list \<Rightarrow> point3 \<times> point3"
  Rodrigues_matrix :: "point3 \<Rightarrow> mat3"
  Rodrigues_vector :: "mat3 \<Rightarrow> point3"

subsection \<open>stringToDoubleArray\<close>

text \<open>
  \<^verbatim>\<open>data.find(delimiter)\<close>: the first index at which \<open>delimiter\<close> occurs in \<open>data\<close>, or
  \<^verbatim>\<open>npos\<close>.
\<close>

fun str_find :: "string \<Rightarrow> string \<Rightarrow> nat option" where
  "str_find dl [] = (if dl = [] then Some 0 else None)"
| "str_find dl (c # cs) =
     (if take (length dl) (c # cs) = dl then Some 0 else map_option Suc (str_find dl cs))"

definition string_find :: "nat \<Rightarrow> string \<Rightarrow> string \<Rightarrow> nat" where
  "string_find bits dl s = (case str_find dl s of None \<Rightarrow> size_t_max bits | Some i \<Rightarrow> i)"

text \<open>
  The loop of \<^verbatim>\<open>stringToDoubleArray\<close>.
  \<^verbatim>\<open>
  unsigned int pos = 0, k = 0;
  while((pos = data.find(delimiter)) != string::npos && k < count)
  {
      string token = data.substr(0, pos);
      values[k] = stod(token);
      data.erase(0, pos + delimiter.length());
      k++;
  }
  \<close>
  \<open>pos\<close> is an \<^verbatim>\<open>unsigned int\<close>: the assignment keeps the low 32 bits of what \<open>find\<close>
  returned, and the comparison with \<^verbatim>\<open>npos\<close> is made on that value, converted back to
  \<^verbatim>\<open>size_t\<close>. \<open>substr\<close> and \<open>erase\<close> clamp their length to the string, as \<open>take\<close> and
  \<open>drop\<close> do; \<open>pos + delimiter.length()\<close> is computed in \<^verbatim>\<open>size_t\<close>. \<open>vals\<close> is the
  caller's array, with whatever it holds on entry.
\<close>

function stringToDoubleArray_loop ::
  "nat \<Rightarrow> (string \<Rightarrow> error + real) \<Rightarrow> string \<Rightarrow> real list \<Rightarrow> nat \<Rightarrow> string \<Rightarrow> nat \<Rightarrow> error + real list" where
  "stringToDoubleArray_loop bits stod data vals count delimiter k =
     (if to_unsigned_int (string_find bits delimiter data) \<noteq> size_t_max bits \<and> k < count then
        (case stod (take (to_unsigned_int (string_find bits delimiter data)) data) of
           Inl e \<Rightarrow> Inl e
         | Inr v \<Rightarrow>
             if k < length vals then
               stringToDoubleArray_loop bits stod
                 (drop ((to_unsigned_int (string_find bits delimiter data) + length delimiter) mod 2 ^ bits) data)
                 (vals[k := v]) count delimiter (Suc k)
             else Inl Out_of_bounds)
      else Inr vals)"
  by pat_completeness auto
termination
  by (relation "measure (\<lambda>(bits, stod, data, vals, count, delimiter, k). count - k)") auto

definition stringToDoubleArray ::
  "nat \<Rightarrow> (string \<Rightarrow> error + real) \<Rightarrow> string \<Rightarrow> real list \<Rightarrow> nat \<Rightarrow> string \<Rightarrow> error + real list" where
  "stringToDoubleArray bits stod data vals count delimiter =
     stringToDoubleArray_loop bits stod data vals count delimiter 0"

subsection \<open>onFrame\<close>

text \<open>
  The adaptive threshold step (the first \<^verbatim>\<open>if\<close> of \<^verbatim>\<open>onFrame\<close>), given \<^verbatim>\<open>markers.size()\<close>:
  \<^verbatim>\<open>
  if(markers.size() == 0)
  {
      theshold_block_size += 2;
      if(theshold_block_size > theshold_block_size_max)
          theshold_block_size = theshold_block_size_min;
  }
  \<close>
\<close>

definition threshold_update :: "nat \<Rightarrow> node \<Rightarrow> node" where
  "threshold_update n s =
     (if n = 0 then
        (if int32 (theshold_block_size s + 2) > theshold_block_size_max s
         then s\<lparr>theshold_block_size := theshold_block_size_min s\<rparr>
         else s\<lparr>theshold_block_size := int32 (theshold_block_size s + 2)\<rparr>)
      else s)"

text \<open>
  The matching loops. For the marker \<open>m\<close> the inner loop runs over the known markers; at
  every entry with the marker's id it attaches the entry, appends the marker's corners
  \<open>0..3\<close> to \<open>projected\<close> and the entry's corners \<open>0..3\<close> to \<open>world\<close> (the loop over \<open>k < 4\<close>,
  \<open>corners4\<close>), and appends the marker to \<open>found\<close>. The accumulator is
  \<open>(projected, world, found)\<close>.
\<close>

type_synonym correspondences = "point2 list \<times> point3 list \<times> ArucoMarker list"

definition corners4 :: "'a list \<Rightarrow> 'a list" where
  "corners4 xs = map (\<lambda>k. xs ! k) [0..<4]"

fun match_known :: "ArucoMarker \<Rightarrow> ArucoMarkerInfo list \<Rightarrow> correspondences \<Rightarrow> ArucoMarker \<times> correspondences" where
  "match_known m [] acc = (m, acc)"
| "match_known m (info # rest) (proj, wld, found) =
     (if marker_id m = info_id info then
        match_known (m\<lparr>attached := Some info\<rparr>) rest
          (proj @ corners4 (projected (m\<lparr>attached := Some info\<rparr>)),
           wld @ corners4 (info_world info),
           found @ [m\<lparr>attached := Some info\<rparr>])
      else match_known m rest (proj, wld, found))"

fun match_markers :: "ArucoMarker list \<Rightarrow> ArucoMarkerInfo list \<Rightarrow> correspondences \<Rightarrow> ArucoMarker list \<times> correspondences" where
  "match_markers [] kn acc = ([], acc)"
| "match_markers (m # ms) kn acc =
     (case match_known m kn acc of
        (m', acc') \<Rightarrow> (case match_markers ms kn acc' of (ms', acc'') \<Rightarrow> (m' # ms', acc'')))"

text \<open>Matrix operations on 3x3 matrices stored by rows: \<^verbatim>\<open>t()\<close>, unary minus, product with a vector.\<close>

definition transpose3 :: "mat3 \<Rightarrow> mat3" where
  "transpose3 m = (case m of ((a, b, c), (d, e, f), (g, h, i)) \<Rightarrow> ((a, d, g), (b, e, h), (c, f, i)))"

definition neg_vec :: "point3 \<Rightarrow> point3" where
  "neg_vec v = (case v of (a, b, c) \<Rightarrow> (- a, - b, - c))"

definition neg_mat :: "mat3 \<Rightarrow> mat3" where
  "neg_mat m = (case m of (r0, r1, r2) \<Rightarrow> (neg_vec r0, neg_vec r1, neg_vec r2))"

definition dot3 :: "point3 \<Rightarrow> point3 \<Rightarrow> real" where
  "dot3 u v = (case u of (a, b, c) \<Rightarrow> (case v of (x, y, z) \<Rightarrow> a * x + b * y + c * z))"

definition mat_vec :: "mat3 \<Rightarrow> point3 \<Rightarrow> point3" where
  "mat_vec m v = (case m of (r0, r1, r2) \<Rightarrow> (dot3 r0 v, dot3 r1 v, dot3 r2 v))"

text \<open>
  Inversion of the solved pose:
  \<^verbatim>\<open>
  Rodrigues(rotation, rodrigues);
  Rodrigues(rodrigues.t(), camera_rotation);
  Mat camera_position = -rodrigues.t() * position;
  \<close>
  The result is \<open>(camera_rotation, camera_position)\<close>.
\<close>

definition invert_pose :: "('m, 'f) opencv \<Rightarrow> point3 \<Rightarrow> point3 \<Rightarrow> point3 \<times> point3" where
  "invert_pose cv rotation position =
     (Rodrigues_vector cv (transpose3 (Rodrigues_matrix cv rotation)),
      mat_vec (neg_mat (transpose3 (Rodrigues_matrix cv rotation))) position)"

text \<open>
  The components written into \<^verbatim>\<open>message_position\<close> and \<^verbatim>\<open>message_rotation\<close>: the vector
  itself with \<^verbatim>\<open>use_opencv_coords\<close>, and \<open>(v[2], -v[0], -v[1])\<close> otherwise.
\<close>

definition robot_coords :: "point3 \<Rightarrow> point3" where
  "robot_coords v = (case v of (a, b, c) \<Rightarrow> (c, - a, - b))"

definition message_coords :: "bool \<Rightarrow> point3 \<Rightarrow> point3" where
  "message_coords opencv_coords v = (if opencv_coords then v else robot_coords v)"

text \<open>The orientation of the pose message, from the components of \<^verbatim>\<open>message_rotation\<close>.\<close>

definition to_quaternion :: "point3 \<Rightarrow> quaternion" where
  "to_quaternion r =
     (case r of (x, y, z) \<Rightarrow>
        if sqrt (x * x + y * y + z * z) > 0 then
          (x * sin (sqrt (x * x + y * y + z * z) / 2) / sqrt (x * x + y * y + z * z),
           y * sin (sqrt (x * x + y * y + z * z) / 2) / sqrt (x * x + y * y + z * z),
           z * sin (sqrt (x * x + y * y + z * z) / 2) / sqrt (x * x + y * y + z * z),
           cos (sqrt (x * x + y * y + z * z) / 2))
        else (0, 0, 0, 1))"

text \<open>
  The branch \<^verbatim>\<open>if(world.size() > 0)\<close>: the three messages it publishes, in order. \<open>now\<close> is
  the reading of the ROS clock.
\<close>

definition pose_messages ::
  "('m, 'f) opencv \<Rightarrow> node \<Rightarrow> nat \<Rightarrow> point3 list \<Rightarrow> point2 list \<Rightarrow> published list" where
  "pose_messages cv s now wld proj =
     (case solvePnP cv wld proj (calibration s) (distortion s) of
        (rotation, position) \<Rightarrow>
          (case invert_pose cv rotation position of
             (camera_rotation, camera_position) \<Rightarrow>
               [Pub_position (message_coords (use_opencv_coords s) camera_position),
                Pub_rotation (message_coords (use_opencv_coords s) camera_rotation),
                Pub_pose \<lparr>frame_id = ''aruco'', stamp = now,
                   pose_position = message_coords (use_opencv_coords s) camera_position,
                   pose_orientation =
                     to_quaternion (message_coords (use_opencv_coords s) camera_rotation)\<rparr>]))"

text \<open>
  The keys of the debug window (\<^verbatim>\<open>char key = (char) waitKey(1)\<close>), read only when
  \<^verbatim>\<open>debug\<close> is set: four independent \<^verbatim>\<open>if / else if\<close> pairs.
\<close>

definition key_cosine :: "char \<Rightarrow> node \<Rightarrow> node" where
  "key_cosine key s =
     (if key = CHR ''q'' then s\<lparr>cosine_limit := cosine_limit s + 0.05\<rparr>
      else if key = CHR ''a'' then s\<lparr>cosine_limit := cosine_limit s - 0.05\<rparr>
      else s)"

definition key_threshold :: "char \<Rightarrow> node \<Rightarrow> node" where
  "key_threshold key s =
     (if key = CHR ''w'' then s\<lparr>theshold_block_size := int32 (theshold_block_size s + 2)\<rparr>
      else if key = CHR ''s'' \<and> theshold_block_size s > 3
        then s\<lparr>theshold_block_size := int32 (theshold_block_size s - 2)\<rparr>
      else s)"

definition key_error :: "char \<Rightarrow> node \<Rightarrow> node" where
  "key_error key s =
     (if key = CHR ''r'' then s\<lparr>max_error_quad := max_error_quad s + 0.005\<rparr>
      else if key = CHR ''f'' then s\<lparr>max_error_quad := max_error_quad s - 0.005\<rparr>
      else s)"

definition key_area :: "char \<Rightarrow> node \<Rightarrow> node" where
  "key_area key s =
     (if key = CHR ''e'' then s\<lparr>min_area := int32 (min_area s + 50)\<rparr>
      else if key = CHR ''d'' then s\<lparr>min_area := int32 (min_area s - 50)\<rparr>
      else s)"

definition debug_keys :: "char \<Rightarrow> node \<Rightarrow> node" where
  "debug_keys key s = key_area key (key_error key (key_threshold key (key_cosine key s)))"

text \<open>
  \<^verbatim>\<open>onFrame\<close>: the messages published while handling the frame, in order, and the state
  after it. A frame \<open>toCvShare\<close> rejects is caught and changes nothing. Drawing into the
  debug window writes no state and is left out.
\<close>

definition onFrame ::
  "('m, 'f) opencv \<Rightarrow> 'm \<Rightarrow> nat \<Rightarrow> char \<Rightarrow> node \<Rightarrow> published list \<times> node" where
  "onFrame cv msg now key s =
     (case toCvShare cv msg of
        None \<Rightarrow> ([], s)
      | Some frame \<Rightarrow>
          (let markers = getMarkers cv frame (cosine_limit s) (theshold_block_size s) (min_area s)
                           (max_error_quad s);
               s1 = threshold_update (length markers) s
           in case match_markers markers (known s1) ([], [], []) of
                (markers', proj, wld, found) \<Rightarrow>
                  ((if length wld > 0 then pose_messages cv s1 now wld proj else [])
                   @ [Pub_visible (length wld \<noteq> 0)],
                   (if debug s1 then debug_keys key s1 else s1))))"

subsection \<open>onCameraInfo, onMarkerRegister, onMarkerRemove\<close>

text \<open>
  \<^verbatim>\<open>calibration.at<double>(i / 3, i % 3)\<close> is element \<open>(i / 3) * 3 + i % 3\<close> of the 3x3
  matrix's data, \<^verbatim>\<open>distortion.at<double>(0, i)\<close> element \<open>i\<close> of the 1x5 matrix's.
  \<^verbatim>\<open>msg->k\<close> is an array of 9 and \<^verbatim>\<open>msg->d\<close> a vector of any length: a message with fewer
  than 5 distortion coefficients makes \<^verbatim>\<open>msg->d[i]\<close> read outside the vector.
\<close>

definition set_calibration :: "real list \<Rightarrow> real list \<Rightarrow> real list" where
  "set_calibration src m = fold (\<lambda>i m. m[(i div 3) * 3 + i mod 3 := src ! i]) [0..<9] m"

definition set_distortion :: "real list \<Rightarrow> real list \<Rightarrow> real list" where
  "set_distortion src m = fold (\<lambda>i m. m[i := src ! i]) [0..<5] m"

definition onCameraInfo :: "CameraInfo \<Rightarrow> node \<Rightarrow> error + node" where
  "onCameraInfo msg s =
     (if \<not> calibrated s then
        (if length (cam_k msg) < 9 \<or> length (cam_d msg) < 5 then Inl Out_of_bounds
         else Inr (s\<lparr>calibrated := True,
                     calibration := set_calibration (cam_k msg) (calibration s),
                     distortion := set_distortion (cam_d msg) (distortion s)\<rparr>))
      else Inr s)"

text \<open>
  The loop both registry callbacks run: erase the first entry with the id and stop.
  The flag tells whether an entry was erased.
\<close>

fun erase_id :: "int \<Rightarrow> ArucoMarkerInfo list \<Rightarrow> ArucoMarkerInfo list \<times> bool" where
  "erase_id i [] = ([], False)"
| "erase_id i (x # xs) =
     (if info_id x = i then (xs, True)
      else (case erase_id i xs of (ys, b) \<Rightarrow> (x # ys, b)))"

definition onMarkerRegister ::
  "(real \<Rightarrow> point3 \<Rightarrow> point3 \<Rightarrow> point3 list) \<Rightarrow> Marker_msg \<Rightarrow> node \<Rightarrow> notice list \<times> node" where
  "onMarkerRegister corners msg s =
     (case erase_id (msg_id msg) (known s) of
        (kn, erased) \<Rightarrow>
          ((if erased then [Replaced (msg_id msg)] else []) @ [Added (msg_id msg)],
           s\<lparr>known := kn @ [new_ArucoMarkerInfo corners (msg_id msg) (msg_size msg)
                               (posx msg, posy msg, posz msg) (rotx msg, roty msg, rotz msg)]\<rparr>))"

definition onMarkerRemove :: "int \<Rightarrow> node \<Rightarrow> notice list \<times> node" where
  "onMarkerRemove i s =
     (case erase_id i (known s) of
        (kn, erased) \<Rightarrow> ((if erased then [Removed i] else []), s\<lparr>known := kn\<rparr>))"

subsection \<open>main: parameters and initial state\<close>

text \<open>
  The parameters of the node; \<open>None\<close> is a parameter that is not set, for which
  \<^verbatim>\<open>get_parameter_or\<close> stores the default.
\<close>

record parameters =
  p_debug :: "bool option"
  p_use_opencv_coords :: "bool option"
  p_cosine_limit :: "real option"
  p_theshold_block_size_min :: "int option"
  p_theshold_block_size_max :: "int option"
  p_max_error_quad :: "real option"
  p_min_area :: "int option"
  p_calibrated :: "bool option"
  p_calibration :: "string option"
  p_distortion :: "string option"
  p_marker :: "nat \<Rightarrow> string option"

definition get_parameter_or :: "'a option \<Rightarrow> 'a \<Rightarrow> 'a" where
  "get_parameter_or p dflt = (case p of None \<Rightarrow> dflt | Some v \<Rightarrow> v)"

definition data_calibration :: "real list" where
  "data_calibration = [570.3422241210938, 0, 319.5, 0, 570.3422241210938, 239.5, 0, 0, 1]"

definition data_distortion :: "real list" where
  "data_distortion = [0, 0, 0, 0, 0]"

text \<open>
  \<^verbatim>\<open>
  theshold_block_size = (theshold_block_size_min + theshold_block_size_max) / 2;
  if(theshold_block_size % 2 == 0) theshold_block_size++;
  \<close>
\<close>

definition initial_block_size :: "int \<Rightarrow> int \<Rightarrow> int" where
  "initial_block_size mn mx =
     (if c_mod (c_div (int32 (mn + mx)) 2) 2 = 0 then int32 (c_div (int32 (mn + mx)) 2 + 1)
      else c_div (int32 (mn + mx)) 2)"

definition main_parameters :: "parameters \<Rightarrow> node" where
  "main_parameters p =
     \<lparr>calibration = data_calibration,
      distortion = data_distortion,
      known = [],
      calibrated = get_parameter_or (p_calibrated p) False,
      use_opencv_coords = get_parameter_or (p_use_opencv_coords p) False,
      debug = get_parameter_or (p_debug p) False,
      cosine_limit = get_parameter_or (p_cosine_limit p) 0.7,
      max_error_quad = get_parameter_or (p_max_error_quad p) 0.035,
      theshold_block_size =
        initial_block_size (get_parameter_or (p_theshold_block_size_min p) 3)
          (get_parameter_or (p_theshold_block_size_max p) 21),
      theshold_block_size_min = get_parameter_or (p_theshold_block_size_min p) 3,
      theshold_block_size_max = get_parameter_or (p_theshold_block_size_max p) 21,
      min_area = get_parameter_or (p_min_area p) 100\<rparr>"

text \<open>
  The calibration override. \<open>uninit\<close> is the content of the local array
  \<^verbatim>\<open>double values[9]\<close>, which is not initialised.
  \<^verbatim>\<open>
  node->get_parameter_or<string>("calibration",data,"");
  if(data != "")
  {
      double values[9];
      stringToDoubleArray(data, values, 9, "_");
      for(unsigned int i = 0; i < 9; i++)
          calibration.at<double>(i / 3, i % 3) = values[i];
      calibrated = true;
  }
  \<close>
\<close>

definition main_calibration ::
  "nat \<Rightarrow> (string \<Rightarrow> error + real) \<Rightarrow> real list \<Rightarrow> parameters \<Rightarrow> node \<Rightarrow> error + node" where
  "main_calibration bits stod uninit p s =
     (if get_parameter_or (p_calibration p) [] \<noteq> [] then
        (case stringToDoubleArray bits stod (get_parameter_or (p_calibration p) []) uninit 9 ''_'' of
           Inl e \<Rightarrow> Inl e
         | Inr vals \<Rightarrow>
             Inr (s\<lparr>calibration := set_calibration vals (calibration s), calibrated := True\<rparr>))
      else Inr s)"

text \<open>
  The distortion override. The block declares a second \<^verbatim>\<open>string data\<close>, which hides the
  parameter's value: the string parsed is this new, empty one.
  \<^verbatim>\<open>
  node->get_parameter_or<string>("distortion",data,"");
  if(data != "")
  {
      string data;
      double values[5];
      stringToDoubleArray(data, values, 5, "_");
      for(unsigned int i = 0; i < 5; i++)
          distortion.at<double>(0, i) = values[i];
      calibrated = true;
  }
  \<close>
\<close>

definition main_distortion ::
  "nat \<Rightarrow> (string \<Rightarrow> error + real) \<Rightarrow> real list \<Rightarrow> parameters \<Rightarrow> node \<Rightarrow> error + node" where
  "main_distortion bits stod uninit p s =
     (if get_parameter_or (p_distortion p) [] \<noteq> [] then
        (case stringToDoubleArray bits stod [] uninit 5 ''_'' of
           Inl e \<Rightarrow> Inl e
         | Inr vals \<Rightarrow>
             Inr (s\<lparr>distortion := set_distortion vals (distortion s), calibrated := True\<rparr>))
      else Inr s)"

text \<open>
  The marker built from the seven parsed values of the parameter \<^verbatim>\<open>marker<i>\<close>:
  \<^verbatim>\<open>
  //Use OpenCV coordinates
  if(use_opencv_coords)
      known.push_back(ArucoMarkerInfo(i, values[0], Point3d(values[1], values[2], values[3]),
                                      Point3d(values[4], values[5], values[6])));
  //Convert coordinates (-Y, -Z, +X)
  else
      known.push_back(ArucoMarkerInfo(i, values[0], Point3d(-values[2], -values[3], -values[1]),
                                      Point3d(-values[5], -values[6], values[4])));
  \<close>
\<close>

definition marker_position :: "bool \<Rightarrow> real list \<Rightarrow> point3" where
  "marker_position opencv_coords v =
     (if opencv_coords then (v ! 1, v ! 2, v ! 3) else (- (v ! 2), - (v ! 3), - (v ! 1)))"

definition marker_rotation :: "bool \<Rightarrow> real list \<Rightarrow> point3" where
  "marker_rotation opencv_coords v =
     (if opencv_coords then (v ! 4, v ! 5, v ! 6) else (- (v ! 5), - (v ! 6), v ! 4))"

definition marker_of_values ::
  "(real \<Rightarrow> point3 \<Rightarrow> point3 \<Rightarrow> point3 list) \<Rightarrow> bool \<Rightarrow> nat \<Rightarrow> real list \<Rightarrow> ArucoMarkerInfo" where
  "marker_of_values corners opencv_coords i v =
     new_ArucoMarkerInfo corners (int i) (v ! 0) (marker_position opencv_coords v)
       (marker_rotation opencv_coords v)"

text \<open>
  One round of the loop over \<open>i < 1024\<close>. The inner \<^verbatim>\<open>string data\<close> is filled again from
  the same parameter, which is set and not empty there, so the default of that second
  \<^verbatim>\<open>get_parameter_or\<close> is never used. \<open>uninit i\<close> is the content of \<^verbatim>\<open>double values[7]\<close>
  on entry.
\<close>

definition main_marker ::
  "nat \<Rightarrow> (string \<Rightarrow> error + real) \<Rightarrow> (real \<Rightarrow> point3 \<Rightarrow> point3 \<Rightarrow> point3 list) \<Rightarrow> (nat \<Rightarrow> real list) \<Rightarrow>
   parameters \<Rightarrow> nat \<Rightarrow> error + node \<Rightarrow> error + node" where
  "main_marker bits stod corners uninit p i r =
     (case r of
        Inl e \<Rightarrow> Inl e
      | Inr s \<Rightarrow>
          if get_parameter_or (p_marker p i) [] \<noteq> [] then
            (case stringToDoubleArray bits stod (get_parameter_or (p_marker p i) ''1_0_0_0_0_0_0'')
                    (uninit i) 7 ''_'' of
               Inl e \<Rightarrow> Inl e
             | Inr vals \<Rightarrow>
                 Inr (s\<lparr>known := known s @ [marker_of_values corners (use_opencv_coords s) i vals]\<rparr>))
          else Inr s)"

definition main_markers ::
  "nat \<Rightarrow> (string \<Rightarrow> error + real) \<Rightarrow> (real \<Rightarrow> point3 \<Rightarrow> point3 \<Rightarrow> point3 list) \<Rightarrow> (nat \<Rightarrow> real list) \<Rightarrow>
   parameters \<Rightarrow> node \<Rightarrow> error + node" where
  "main_markers bits stod corners uninit p s =
     fold (main_marker bits stod corners uninit p) [0..<1024] (Inr s)"

text \<open>
  The state \<^verbatim>\<open>main\<close> has built when it subscribes to the topics, or the exception that
  ended it.
\<close>

definition main_setup ::
  "nat \<Rightarrow> (string \<Rightarrow> error + real) \<Rightarrow> (real \<Rightarrow> point3 \<Rightarrow> point3 \<Rightarrow> point3 list) \<Rightarrow>
   real list \<Rightarrow> real list \<Rightarrow> (nat \<Rightarrow> real list) \<Rightarrow> parameters \<Rightarrow> error + node" where
  "main_setup bits stod corners uninit9 uninit5 uninit7 p =
     (case main_calibration bits stod uninit9 p (main_parameters p) of
        Inl e \<Rightarrow> Inl e
      | Inr s1 \<Rightarrow>
          (case main_distortion bits stod uninit5 p s1 of
             Inl e \<Rightarrow> Inl e
           | Inr s2 \<Rightarrow> main_markers bits stod corners uninit7 p s2))"

text \<open>
  A stand-in for \<^verbatim>\<open>std::stod\<close> on the strings the examples below parse: a non-empty string
  of decimal digits is its value; anything else is refused with \<^verbatim>\<open>std::invalid_argument\<close>,
  which is what \<^verbatim>\<open>std::stod\<close> does on the empty string.
\<close>

definition digit_val :: "char \<Rightarrow> nat option" where
  "digit_val c =
     (if 48 \<le> (of_char c :: nat) \<and> (of_char c :: nat) \<le> 57 then Some (of_char c - 48) else None)"

fun digits_val :: "nat \<Rightarrow> string \<Rightarrow> nat option" where
  "digits_val acc [] = Some acc"
| "digits_val acc (c # cs) =
     (case digit_val c of None \<Rightarrow> None | Some dv \<Rightarrow> digits_val (10 * acc + dv) cs)"

definition stod_digits :: "string \<Rightarrow> error + real" where
  "stod_digits t =
     (if t = [] then Inl Invalid_argument
      else (case digits_val 0 t of None \<Rightarrow> Inl Invalid_argument | Some n \<Rightarrow> Inr (real n)))"

subsection \<open>Notions the properties are stated with\<close>

text \<open>Length of a rotation vector, norm of a quaternion.\<close>

definition magnitude :: "point3 \<Rightarrow> real" where
  "magnitude v = (case v of (x, y, z) \<Rightarrow> sqrt (x * x + y * y + z * z))"

definition quat_norm :: "quaternion \<Rightarrow> real" where
  "quat_norm q = (case q of (x, y, z, w) \<Rightarrow> sqrt (x * x + y * y + z * z + w * w))"

text \<open>
  The quaternion of the rotation by the angle \<open>a\<close> about the unit axis \<open>u\<close>, and the
  rotation matrix of a unit quaternion \<open>(x, y, z, w)\<close>.
\<close>

definition axis_angle_quaternion :: "point3 \<Rightarrow> real \<Rightarrow> quaternion" where
  "axis_angle_quaternion u a =
     (case u of (x, y, z) \<Rightarrow> (x * sin (a / 2), y * sin (a / 2), z * sin (a / 2), cos (a / 2)))"

definition quaternion_matrix :: "quaternion \<Rightarrow> mat3" where
  "quaternion_matrix q =
     (case q of (x, y, z, w) \<Rightarrow>
        ((1 - 2 * (y * y + z * z), 2 * (x * y - z * w), 2 * (x * z + y * w)),
         (2 * (x * y + z * w), 1 - 2 * (x * x + z * z), 2 * (y * z - x * w)),
         (2 * (x * z - y * w), 2 * (y * z + x * w), 1 - 2 * (x * x + y * y))))"

definition trace3 :: "mat3 \<Rightarrow> real" where
  "trace3 m = (case m of ((a, b, c), (d, e, f), (g, h, i)) \<Rightarrow> a + e + i)"

text \<open>
  The known markers with the id of a detected marker, and the list \<open>found\<close> the matching
  loops build: every detected marker once for each known marker with its id, in order.
\<close>

definition matching :: "ArucoMarker \<Rightarrow> ArucoMarkerInfo list \<Rightarrow> ArucoMarkerInfo list" where
  "matching m kn = filter (\<lambda>e. info_id e = marker_id m) kn"

definition found_of :: "ArucoMarker list \<Rightarrow> ArucoMarkerInfo list \<Rightarrow> ArucoMarker list" where
  "found_of ms kn = concat (map (\<lambda>m. map (\<lambda>e. m\<lparr>attached := Some e\<rparr>) (matching m kn)) ms)"

text \<open>A sequence of camera-info messages, and a sequence of frames \<open>(message, clock, key)\<close>.\<close>

fun onCameraInfos :: "CameraInfo list \<Rightarrow> node \<Rightarrow> error + node" where
  "onCameraInfos [] s = Inr s"
| "onCameraInfos (m # ms) s =
     (case onCameraInfo m s of Inl e \<Rightarrow> Inl e | Inr s' \<Rightarrow> onCameraInfos ms s')"

fun onFrames :: "('m, 'f) opencv \<Rightarrow> ('m \<times> nat \<times> char) list \<Rightarrow> node \<Rightarrow> node" where
  "onFrames cv [] s = s"
| "onFrames cv ((msg, now, key) # fs) s = onFrames cv fs (snd (onFrame cv msg now key s))"

text \<open>What the detector returns for a frame in the state \<open>s\<close>.\<close>

definition detected :: "('m, 'f) opencv \<Rightarrow> 'f \<Rightarrow> node \<Rightarrow> ArucoMarker list" where
  "detected cv frame s =
     getMarkers cv frame (cosine_limit s) (theshold_block_size s) (min_area s) (max_error_quad s)"

text \<open>
  The values of an \<^verbatim>\<open>int\<close>; the two keys of the debug window that change the block size;
  bounds that are odd, ordered and far enough from the ends of \<^verbatim>\<open>int\<close> for
  \<open>min + max\<close> and \<open>max + 2\<close> not to overflow; a block size that is odd and within the bounds.
\<close>

definition in_int32 :: "int \<Rightarrow> bool" where
  "in_int32 x = (- 2147483648 \<le> x \<and> x \<le> 2147483647)"

definition tuning_key :: "char \<Rightarrow> bool" where
  "tuning_key key = (key = CHR ''w'' \<or> key = CHR ''s'')"

definition bounds_ok :: "node \<Rightarrow> bool" where
  "bounds_ok s =
     (odd (theshold_block_size_min s) \<and> odd (theshold_block_size_max s) \<and>
      theshold_block_size_min s \<le> theshold_block_size_max s \<and>
      in_int32 (theshold_block_size_min s) \<and> in_int32 (theshold_block_size_max s + 2) \<and>
      in_int32 (theshold_block_size_min s + theshold_block_size_max s))"

definition block_size_ok :: "node \<Rightarrow> bool" where
  "block_size_ok s =
     (theshold_block_size_min s \<le> theshold_block_size s \<and>
      theshold_block_size s \<le> theshold_block_size_max s \<and> odd (theshold_block_size s))"

text \<open>
  The states of a running node: the state \<^verbatim>\<open>main\<close> built, and the state after any callback
  that returned.
\<close>

inductive reachable ::
  "nat \<Rightarrow> (string \<Rightarrow> error + real) \<Rightarrow> (real \<Rightarrow> point3 \<Rightarrow> point3 \<Rightarrow> point3 list) \<Rightarrow>
   ('m, 'f) opencv \<Rightarrow> node \<Rightarrow> bool"
  for bits :: nat and stod :: "string \<Rightarrow> error + real"
    and corners :: "real \<Rightarrow> point3 \<Rightarrow> point3 \<Rightarrow> point3 list" and cv :: "('m, 'f) opencv"
  where
    started: "main_setup bits stod corners u9 u5 u7 p = Inr s \<Longrightarrow> reachable bits stod corners cv s"
  | frame: "reachable bits stod corners cv s \<Longrightarrow>
      reachable bits stod corners cv (snd (onFrame cv msg now key s))"
  | camera_info: "reachable bits stod corners cv s \<Longrightarrow> onCameraInfo m s = Inr s' \<Longrightarrow>
      reachable bits stod corners cv s'"
  | registered: "reachable bits stod corners cv s \<Longrightarrow>
      reachable bits stod corners cv (snd (onMarkerRegister corners m s))"
  | removed: "reachable bits stod corners cv s \<Longrightarrow>
      reachable bits stod corners cv (snd (onMarkerRemove i s))"

text \<open>Fields joined by a one-character delimiter, with no delimiter after the last.\<close>

fun join_fields :: "char \<Rightarrow> string list \<Rightarrow> string" where
  "join_fields c [] = []"
| "join_fields c [f] = f"
| "join_fields c (f # g # fs) = f @ c # join_fields c (g # fs)"

text \<open>
  Inputs of the examples: no parameter set; a camera whose detector returns the given
  markers for every frame, whose solver returns the translation \<open>(1, 2, 3)\<close> and for which
  \<open>Rodrigues\<close> gives the identity matrix and the zero vector; two markers; two registration
  messages for the id 7; a camera-info message.
\<close>

definition no_parameters :: parameters where
  "no_parameters =
     \<lparr>p_debug = None, p_use_opencv_coords = None, p_cosine_limit = None,
      p_theshold_block_size_min = None, p_theshold_block_size_max = None,
      p_max_error_quad = None, p_min_area = None, p_calibrated = None,
      p_calibration = None, p_distortion = None, p_marker = (\<lambda>i. None)\<rparr>"

definition example_cv :: "ArucoMarker list \<Rightarrow> (unit, unit) opencv" where
  "example_cv ms =
     \<lparr>toCvShare = Some,
      getMarkers = (\<lambda>frame cl bs ma me. ms),
      solvePnP = (\<lambda>wld proj cal dist. ((0, 0, 0), (1, 2, 3))),
      Rodrigues_matrix = (\<lambda>v. ((1, 0, 0), (0, 1, 0), (0, 0, 1))),
      Rodrigues_vector = (\<lambda>m. (0, 0, 0))\<rparr>"

definition example_marker :: "int \<Rightarrow> ArucoMarker" where
  "example_marker i =
     \<lparr>marker_id = i, projected = [(10, 10), (20, 10), (20, 20), (10, 20)], attached = None\<rparr>"

definition example_corners :: "real \<Rightarrow> point3 \<Rightarrow> point3 \<Rightarrow> point3 list" where
  "example_corners sz pos rot = [pos, pos, pos, pos]"

definition example_register :: "real \<Rightarrow> Marker_msg" where
  "example_register sz =
     \<lparr>msg_id = 7, msg_size = sz, posx = 0, posy = 0, posz = 0, rotx = 0, roty = 0, rotz = 0\<rparr>"

definition example_camera_info :: "real \<Rightarrow> CameraInfo" where
  "example_camera_info f = \<lparr>cam_k = [f, 0, 320, 0, f, 240, 0, 0, 1], cam_d = [f, 0, 0, 0, 0]\<rparr>"

section \<open>Properties\<close>

declare stringToDoubleArray_loop.simps [simp del]

subsection \<open>Coordinate conventions\<close>

text \<open>
  What the output mapping returns for a marker rotation and a marker position that
  \<^verbatim>\<open>main\<close> stored from robot coordinates: the rotation comes back as it was given; the
  position comes back with its first component negated.
\<close>

lemma rotation_round_trip:
  "message_coords False (marker_rotation False v) = (v ! 4, v ! 5, v ! 6)"
  by (simp add: message_coords_def marker_rotation_def robot_coords_def)

lemma position_round_trip:
  "message_coords False (marker_position False v) = (- (v ! 1), v ! 2, v ! 3)"
  by (simp add: message_coords_def marker_position_def robot_coords_def)

text \<open>
  C1. The claim: storing a vector given in robot coordinates and mapping the stored vector
  back with \<open>(a, b, c) \<mapsto> (c, -a, -b)\<close> recovers the vector, for positions as for
  rotations. The code's comment announces the ingestion \<open>(-Y, -Z, +X)\<close>, and the rotation
  is stored so; the position is stored as \<open>(-Y, -Z, -X)\<close>. For the marker parameter values
  \<open>[1, 1, 0, 0, 0, 0, 0]\<close> (size 1, position \<open>(1, 0, 0)\<close>, no rotation) the position that comes
  back is \<open>(-1, 0, 0)\<close>.
\<close>

theorem position_round_trip_sign_flipped:
  "message_coords False
     (info_position (marker_of_values corners False 0 [1, 1, 0, 0, 0, 0, 0])) = (- 1, 0, 0)"
  by (simp add: message_coords_def marker_position_def robot_coords_def marker_of_values_def
      new_ArucoMarkerInfo_def)

text \<open>
  The same marker, from its parameter: on a platform with a 64-bit \<^verbatim>\<open>size_t\<close> the string
  \<open>1_1_0_0_0_0_0\<close> is parsed into these seven values, and \<^verbatim>\<open>main\<close> registers the marker 0
  with the position \<open>(0, 0, -1)\<close>.
\<close>

lemma marker_parameter_example:
  "main_marker 64 stod_digits example_corners (\<lambda>i. [0, 0, 0, 0, 0, 0, 0])
     (no_parameters\<lparr>p_marker := (\<lambda>i. if i = 0 then Some ''1_1_0_0_0_0_0'' else None)\<rparr>) 0
     (Inr (main_parameters no_parameters)) =
   Inr ((main_parameters no_parameters)
     \<lparr>known := [new_ArucoMarkerInfo example_corners 0 1 (0, 0, - 1) (0, 0, 0)]\<rparr>)"
  by (simp add: main_marker_def get_parameter_or_def no_parameters_def main_parameters_def
      stringToDoubleArray_def stringToDoubleArray_loop.simps string_find_def size_t_max_def
      to_unsigned_int_def stod_digits_def digit_val_def marker_of_values_def marker_position_def
      marker_rotation_def)

subsection \<open>Rotation vector to quaternion\<close>

lemma to_quaternion_positive:
  assumes "0 < magnitude (x, y, z)"
  shows "to_quaternion (x, y, z) =
    (x * sin (magnitude (x, y, z) / 2) / magnitude (x, y, z),
     y * sin (magnitude (x, y, z) / 2) / magnitude (x, y, z),
     z * sin (magnitude (x, y, z) / 2) / magnitude (x, y, z),
     cos (magnitude (x, y, z) / 2))"
  using assms by (simp add: to_quaternion_def magnitude_def)

lemma magnitude_square: "magnitude (x, y, z) * magnitude (x, y, z) = x * x + y * y + z * z"
proof -
  have "0 \<le> x * x + y * y + z * z" by (simp add: add_nonneg_nonneg)
  then show ?thesis by (simp add: magnitude_def)
qed

lemma scaled_squares:
  fixes a :: real
  assumes "0 < a" "x * x + y * y + z * z = a * a"
  shows "(x * t / a) * (x * t / a) + (y * t / a) * (y * t / a) + (z * t / a) * (z * t / a) = t * t"
proof -
  have "(x * t / a) * (x * t / a) + (y * t / a) * (y * t / a) + (z * t / a) * (z * t / a)
        = (x * x + y * y + z * z) * (t * t) / (a * a)"
    by (simp add: add_divide_distrib algebra_simps)
  also have "\<dots> = t * t" using assms by simp
  finally show ?thesis .
qed

lemma to_quaternion_unit:
  assumes "0 < magnitude (x, y, z)"
  shows "quat_norm (to_quaternion (x, y, z)) = 1"
proof -
  define a where "a = magnitude (x, y, z)"
  define t where "t = sin (a / 2)"
  define c where "c = cos (a / 2)"
  have a: "0 < a" using assms by (simp add: a_def)
  have sq: "x * x + y * y + z * z = a * a" by (simp add: a_def magnitude_square)
  note v = scaled_squares [OF a sq, of t]
  have "t * t + c * c = 1" by (simp add: t_def c_def power2_eq_square [symmetric])
  with v have "(x * t / a) * (x * t / a) + (y * t / a) * (y * t / a) + (z * t / a) * (z * t / a) + c * c = 1"
    by simp
  then show ?thesis
    using assms by (simp add: to_quaternion_positive quat_norm_def a_def t_def c_def)
qed

lemma to_quaternion_axis_angle:
  assumes "0 < magnitude (x, y, z)"
  shows "to_quaternion (x, y, z) =
     axis_angle_quaternion
       (x / magnitude (x, y, z), y / magnitude (x, y, z), z / magnitude (x, y, z))
       (magnitude (x, y, z))"
  using assms by (simp add: to_quaternion_positive axis_angle_quaternion_def)

lemma unit_axis:
  assumes "0 < magnitude (x, y, z)"
  shows "magnitude (x / magnitude (x, y, z), y / magnitude (x, y, z), z / magnitude (x, y, z)) = 1"
proof -
  define a where "a = magnitude (x, y, z)"
  have a: "0 < a" using assms by (simp add: a_def)
  have sq: "x * x + y * y + z * z = a * a" by (simp add: a_def magnitude_square)
  have "(x * 1 / a) * (x * 1 / a) + (y * 1 / a) * (y * 1 / a) + (z * 1 / a) * (z * 1 / a) = 1 * 1"
    using a sq by (rule scaled_squares)
  then have "sqrt ((x / a) * (x / a) + (y / a) * (y / a) + (z / a) * (z / a)) = 1" by simp
  then show ?thesis unfolding a_def [symmetric] by (simp add: magnitude_def)
qed

lemma rotation_trace:
  assumes "0 < magnitude (x, y, z)"
  shows "trace3 (quaternion_matrix (to_quaternion (x, y, z))) = 1 + 2 * cos (magnitude (x, y, z))"
proof -
  define a where "a = magnitude (x, y, z)"
  define t where "t = sin (a / 2)"
  have a: "0 < a" using assms by (simp add: a_def)
  have sq: "x * x + y * y + z * z = a * a" by (simp add: a_def magnitude_square)
  note v = scaled_squares [OF a sq, of t]
  have c: "cos a = 1 - 2 * (t * t)"
    using cos_double_sin [of "a / 2"] by (simp add: t_def power2_eq_square)
  have "trace3 (quaternion_matrix (x * t / a, y * t / a, z * t / a, cos (a / 2)))
      = 3 - 4 * ((x * t / a) * (x * t / a) + (y * t / a) * (y * t / a) + (z * t / a) * (z * t / a))"
    by (simp add: trace3_def quaternion_matrix_def algebra_simps)
  also have "\<dots> = 3 - 4 * (t * t)" by (simp only: v)
  also have "\<dots> = 1 + 2 * cos a" by (simp add: c)
  finally show ?thesis
    using assms by (simp add: to_quaternion_positive a_def t_def)
qed

lemma rotation_axis_fixed:
  "mat_vec (quaternion_matrix (to_quaternion (x, y, z))) (x, y, z) = (x, y, z)"
proof (cases "0 < magnitude (x, y, z)")
  case True
  define a where "a = magnitude (x, y, z)"
  define t where "t = sin (a / 2) / a"
  define w where "w = cos (a / 2)"
  have q: "to_quaternion (x, y, z) = (x * t, y * t, z * t, w)"
    using True by (simp add: to_quaternion_positive a_def t_def w_def)
  show ?thesis
    unfolding q by (simp add: quaternion_matrix_def mat_vec_def dot3_def algebra_simps)
next
  case False
  then have "to_quaternion (x, y, z) = (0, 0, 0, 1)"
    by (simp add: to_quaternion_def magnitude_def)
  then show ?thesis
    by (simp add: quaternion_matrix_def mat_vec_def dot3_def)
qed

text \<open>
  C3. For the rotation vector \<open>(0, 0, 0)\<close> the quaternion is exactly \<open>(0, 0, 0, 1)\<close>. For a
  rotation vector \<open>(x, y, z)\<close> of magnitude \<open>angle > 0\<close> it is
  \<open>(x sin(angle/2)/angle, y sin(angle/2)/angle, z sin(angle/2)/angle, cos(angle/2))\<close>; it has
  norm 1; and it is the quaternion of the rotation by \<open>angle\<close> about the unit axis
  \<open>(x, y, z)/angle\<close>: its rotation matrix leaves \<open>(x, y, z)\<close> fixed and has the trace
  \<open>1 + 2 cos(angle)\<close> of a rotation by \<open>angle\<close>. (Over the real numbers.)
\<close>

theorem to_quaternion_correct:
  "to_quaternion (0, 0, 0) = (0, 0, 0, 1) \<and>
   (0 < magnitude (x, y, z) \<longrightarrow>
      to_quaternion (x, y, z) =
        (x * sin (magnitude (x, y, z) / 2) / magnitude (x, y, z),
         y * sin (magnitude (x, y, z) / 2) / magnitude (x, y, z),
         z * sin (magnitude (x, y, z) / 2) / magnitude (x, y, z),
         cos (magnitude (x, y, z) / 2)) \<and>
      quat_norm (to_quaternion (x, y, z)) = 1 \<and>
      to_quaternion (x, y, z) =
        axis_angle_quaternion
          (x / magnitude (x, y, z), y / magnitude (x, y, z), z / magnitude (x, y, z))
          (magnitude (x, y, z)) \<and>
      magnitude (x / magnitude (x, y, z), y / magnitude (x, y, z), z / magnitude (x, y, z)) = 1 \<and>
      mat_vec (quaternion_matrix (to_quaternion (x, y, z))) (x, y, z) = (x, y, z) \<and>
      trace3 (quaternion_matrix (to_quaternion (x, y, z))) = 1 + 2 * cos (magnitude (x, y, z)))"
proof (intro conjI impI)
  show "to_quaternion (0, 0, 0) = (0, 0, 0, 1)" by (simp add: to_quaternion_def)
next
  assume "0 < magnitude (x, y, z)"
  then show "to_quaternion (x, y, z) =
        (x * sin (magnitude (x, y, z) / 2) / magnitude (x, y, z),
         y * sin (magnitude (x, y, z) / 2) / magnitude (x, y, z),
         z * sin (magnitude (x, y, z) / 2) / magnitude (x, y, z),
         cos (magnitude (x, y, z) / 2))"
    by (rule to_quaternion_positive)
next
  assume "0 < magnitude (x, y, z)"
  then show "quat_norm (to_quaternion (x, y, z)) = 1" by (rule to_quaternion_unit)
next
  assume "0 < magnitude (x, y, z)"
  then show "to_quaternion (x, y, z) =
        axis_angle_quaternion
          (x / magnitude (x, y, z), y / magnitude (x, y, z), z / magnitude (x, y, z))
          (magnitude (x, y, z))"
    by (rule to_quaternion_axis_angle)
next
  assume "0 < magnitude (x, y, z)"
  then show "magnitude (x / magnitude (x, y, z), y / magnitude (x, y, z), z / magnitude (x, y, z)) = 1"
    by (rule unit_axis)
next
  show "mat_vec (quaternion_matrix (to_quaternion (x, y, z))) (x, y, z) = (x, y, z)"
    by (rule rotation_axis_fixed)
next
  assume "0 < magnitude (x, y, z)"
  then show "trace3 (quaternion_matrix (to_quaternion (x, y, z))) = 1 + 2 * cos (magnitude (x, y, z))"
    by (rule rotation_trace)
qed

theorem to_quaternion_correct_witness:
  "0 < magnitude (0, 0, 2) \<and>
   to_quaternion (0, 0, 2) = (0, 0, sin 1, cos 1) \<and>
   quat_norm (to_quaternion (0, 0, 2)) = 1 \<and>
   trace3 (quaternion_matrix (to_quaternion (0, 0, 2))) = 1 + 2 * cos 2"
proof -
  have m: "magnitude (0, 0, 2) = 2" by (simp add: magnitude_def)
  have h: "0 < magnitude (0, 0, 2)" by (simp add: m)
  note t = to_quaternion_correct [of 0 0 2, THEN conjunct2, rule_format, OF h]
  from t [THEN conjunct1] have a: "to_quaternion (0, 0, 2) = (0, 0, sin 1, cos 1)"
    by (simp add: m)
  note b = t [THEN conjunct2, THEN conjunct1]
  from t [THEN conjunct2, THEN conjunct2, THEN conjunct2, THEN conjunct2, THEN conjunct2]
  have c: "trace3 (quaternion_matrix (to_quaternion (0, 0, 2))) = 1 + 2 * cos 2"
    by (simp only: m)
  from h a b c show ?thesis by (intro conjI)
qed

subsection \<open>Pose inversion\<close>

lemma neg_mat_vec: "mat_vec (neg_mat m) v = neg_vec (mat_vec m v)"
  by (cases m; cases v)
    (auto simp: mat_vec_def neg_mat_def neg_vec_def dot3_def split: prod.splits)

lemma message_coords_cases:
  "message_coords True v = v" "message_coords False (a, b, c) = (c, - a, - b)"
  by (simp_all add: message_coords_def robot_coords_def)

text \<open>
  C5. The claim: with \<open>R\<close> and \<open>t\<close> the solved rotation and translation, the camera
  orientation that is emitted is the rotation vector of \<open>R\<^sup>T\<close>, and the camera position
  that is emitted is \<open>-(R\<^sup>T t)\<close>.

  These are the vectors the inversion step computes. What is published is their image
  under \<open>(a, b, c) \<mapsto> (c, -a, -b)\<close> unless \<^verbatim>\<open>use_opencv_coords\<close> is set, which it is not by
  default: for \<open>R\<close> the identity and \<open>t = (1, 2, 3)\<close> the step computes the position
  \<open>(-1, -2, -3)\<close> and the node publishes \<open>(-3, 1, 2)\<close>.
\<close>

theorem pose_inversion_counterexample:
  "use_opencv_coords (main_parameters no_parameters) = False \<and>
   solvePnP (example_cv [example_marker 3]) [(0, 0, 0), (1, 0, 0), (1, 1, 0), (0, 1, 0)]
     [(10, 10), (20, 10), (20, 20), (10, 20)] (calibration (main_parameters no_parameters))
     (distortion (main_parameters no_parameters)) = ((0, 0, 0), (1, 2, 3)) \<and>
   neg_vec (mat_vec (transpose3 (Rodrigues_matrix (example_cv [example_marker 3]) (0, 0, 0)))
     (1, 2, 3)) = (- 1, - 2, - 3) \<and>
   hd (pose_messages (example_cv [example_marker 3]) (main_parameters no_parameters) 0
     [(0, 0, 0), (1, 0, 0), (1, 1, 0), (0, 1, 0)] [(10, 10), (20, 10), (20, 20), (10, 20)]) =
     Pub_position (- 3, 1, 2)"
  by (simp add: pose_messages_def invert_pose_def example_cv_def message_coords_def
      robot_coords_def neg_vec_def neg_mat_def mat_vec_def transpose3_def dot3_def
      main_parameters_def no_parameters_def get_parameter_or_def)

text \<open>
  C5, amended. With \<open>R\<close> the rotation matrix of the solved rotation vector and \<open>t\<close> the
  solved translation, the inversion step computes the rotation vector of \<open>R\<^sup>T\<close> as the
  camera rotation and \<open>-(R\<^sup>T t)\<close> as the camera position. The position, rotation and pose
  messages carry these two vectors: as they are with \<^verbatim>\<open>use_opencv_coords\<close>, and mapped by
  \<open>(a, b, c) \<mapsto> (c, -a, -b)\<close> otherwise.
\<close>

theorem pose_inversion:
  "invert_pose cv rotation position =
     (Rodrigues_vector cv (transpose3 (Rodrigues_matrix cv rotation)),
      neg_vec (mat_vec (transpose3 (Rodrigues_matrix cv rotation)) position)) \<and>
   (solvePnP cv wld proj (calibration s) (distortion s) = (rotation, position) \<longrightarrow>
      pose_messages cv s now wld proj =
        [Pub_position (message_coords (use_opencv_coords s)
           (neg_vec (mat_vec (transpose3 (Rodrigues_matrix cv rotation)) position))),
         Pub_rotation (message_coords (use_opencv_coords s)
           (Rodrigues_vector cv (transpose3 (Rodrigues_matrix cv rotation)))),
         Pub_pose \<lparr>frame_id = ''aruco'', stamp = now,
           pose_position = message_coords (use_opencv_coords s)
             (neg_vec (mat_vec (transpose3 (Rodrigues_matrix cv rotation)) position)),
           pose_orientation = to_quaternion (message_coords (use_opencv_coords s)
             (Rodrigues_vector cv (transpose3 (Rodrigues_matrix cv rotation))))\<rparr>])"
  by (simp add: invert_pose_def pose_messages_def neg_mat_vec)

theorem pose_inversion_witness:
  "solvePnP (example_cv [example_marker 3]) [(0, 0, 0), (1, 0, 0), (1, 1, 0), (0, 1, 0)]
     [(10, 10), (20, 10), (20, 20), (10, 20)]
     (calibration (main_parameters (no_parameters\<lparr>p_use_opencv_coords := Some True\<rparr>)))
     (distortion (main_parameters (no_parameters\<lparr>p_use_opencv_coords := Some True\<rparr>))) =
     ((0, 0, 0), (1, 2, 3)) \<and>
   invert_pose (example_cv [example_marker 3]) (0, 0, 0) (1, 2, 3) = ((0, 0, 0), (- 1, - 2, - 3)) \<and>
   pose_messages (example_cv [example_marker 3])
     (main_parameters (no_parameters\<lparr>p_use_opencv_coords := Some True\<rparr>)) 5
     [(0, 0, 0), (1, 0, 0), (1, 1, 0), (0, 1, 0)] [(10, 10), (20, 10), (20, 20), (10, 20)] =
     [Pub_position (- 1, - 2, - 3), Pub_rotation (0, 0, 0),
      Pub_pose \<lparr>frame_id = ''aruco'', stamp = 5, pose_position = (- 1, - 2, - 3),
        pose_orientation = (0, 0, 0, 1)\<rparr>]"
proof -
  define cv where "cv = example_cv [example_marker 3]"
  define s where "s = main_parameters (no_parameters\<lparr>p_use_opencv_coords := Some True\<rparr>)"
  define wld :: "point3 list" where "wld = [(0, 0, 0), (1, 0, 0), (1, 1, 0), (0, 1, 0)]"
  define proj :: "point2 list" where "proj = [(10, 10), (20, 10), (20, 20), (10, 20)]"
  have h: "solvePnP cv wld proj (calibration s) (distortion s) = ((0, 0, 0), (1, 2, 3))"
    by (simp add: cv_def example_cv_def)
  note t = pose_inversion [of cv "(0, 0, 0)" "(1, 2, 3)" wld proj s 5]
  have r: "Rodrigues_matrix cv (0, 0, 0) = ((1, 0, 0), (0, 1, 0), (0, 0, 1))"
    "Rodrigues_vector cv m = (0, 0, 0)" for m
    by (simp_all add: cv_def example_cv_def)
  have u: "use_opencv_coords s = True"
    by (simp add: s_def main_parameters_def no_parameters_def get_parameter_or_def)
  have v: "neg_vec (mat_vec (transpose3 ((1, 0, 0), (0, 1, 0), (0, 0, 1))) (1, 2, 3)) = (- 1, - 2, - 3)"
    by (simp add: neg_vec_def mat_vec_def transpose3_def dot3_def)
  from t [THEN conjunct1]
  have a: "invert_pose cv (0, 0, 0) (1, 2, 3) = ((0, 0, 0), (- 1, - 2, - 3))"
    by (simp only: r v)
  from t [THEN conjunct2, rule_format, OF h]
  have b: "pose_messages cv s 5 wld proj =
     [Pub_position (- 1, - 2, - 3), Pub_rotation (0, 0, 0),
      Pub_pose \<lparr>frame_id = ''aruco'', stamp = 5, pose_position = (- 1, - 2, - 3),
        pose_orientation = (0, 0, 0, 1)\<rparr>]"
    by (simp add: r v u message_coords_cases to_quaternion_def)
  from h a b show ?thesis unfolding cv_def s_def wld_def proj_def by (intro conjI)
qed

subsection \<open>The registry of known markers\<close>

lemma erase_id_absent: "i \<notin> set (map info_id kn) \<Longrightarrow> erase_id i kn = (kn, False)"
  by (induction kn) auto

lemma erase_id_flag: "snd (erase_id i kn) = (i \<in> set (map info_id kn))"
  by (induction kn) (auto split: prod.splits)

lemma erase_id_filter:
  "distinct (map info_id kn) \<Longrightarrow> fst (erase_id i kn) = filter (\<lambda>e. info_id e \<noteq> i) kn"
proof (induction kn)
  case Nil
  then show ?case by simp
next
  case (Cons x xs)
  show ?case
  proof (cases "info_id x = i")
    case True
    with Cons.prems have "i \<notin> set (map info_id xs)" by auto
    then have "filter (\<lambda>e. info_id e \<noteq> i) xs = xs"
      by (auto simp: filter_id_conv)
    with True show ?thesis by simp
  next
    case False
    obtain ys b where e: "erase_id i xs = (ys, b)" by (cases "erase_id i xs")
    from Cons.prems have "distinct (map info_id xs)" by simp
    then have "fst (erase_id i xs) = filter (\<lambda>e. info_id e \<noteq> i) xs" by (rule Cons.IH)
    with e have "ys = filter (\<lambda>e. info_id e \<noteq> i) xs" by simp
    with False e show ?thesis by simp
  qed
qed

lemma info_id_new [simp]: "info_id (new_ArucoMarkerInfo c i sz p r) = i"
  by (simp add: new_ArucoMarkerInfo_def)

lemma known_register:
  "distinct (map info_id (known s)) \<Longrightarrow>
   known (snd (onMarkerRegister c m s)) =
     filter (\<lambda>e. info_id e \<noteq> msg_id m) (known s)
       @ [new_ArucoMarkerInfo c (msg_id m) (msg_size m) (posx m, posy m, posz m)
            (rotx m, roty m, rotz m)]"
  using erase_id_filter [of "known s" "msg_id m"]
  by (auto simp: onMarkerRegister_def split: prod.splits)

lemma distinct_register:
  assumes "distinct (map info_id (known s))"
  shows "distinct (map info_id (known (snd (onMarkerRegister c m s))))"
proof -
  have "distinct (map info_id (filter (\<lambda>e. info_id e \<noteq> msg_id m) (known s)))"
    using assms by (rule distinct_map_filter)
  then show ?thesis
    using assms by (auto simp: known_register)
qed

lemma register_one_entry:
  assumes "distinct (map info_id (known s))"
  shows "filter (\<lambda>e. info_id e = msg_id m) (known (snd (onMarkerRegister c m s))) =
     [new_ArucoMarkerInfo c (msg_id m) (msg_size m) (posx m, posy m, posz m)
        (rotx m, roty m, rotz m)]"
  using assms by (simp add: known_register)

lemma register_log:
  "fst (onMarkerRegister c m s) =
     (if msg_id m \<in> set (map info_id (known s)) then [Replaced (msg_id m), Added (msg_id m)]
      else [Added (msg_id m)])"
  using erase_id_flag [of "msg_id m" "known s"]
  by (auto simp: onMarkerRegister_def split: prod.splits simp del: set_map)

lemma remove_absent:
  "i \<notin> set (map info_id (known s)) \<Longrightarrow> onMarkerRemove i s = ([], s)"
  by (simp add: onMarkerRemove_def erase_id_absent del: set_map)

lemma known_remove:
  "distinct (map info_id (known s)) \<Longrightarrow>
   known (snd (onMarkerRemove i s)) = filter (\<lambda>e. info_id e \<noteq> i) (known s)"
  using erase_id_filter [of "known s" i]
  by (auto simp: onMarkerRemove_def split: prod.splits)

lemma remove_log:
  "fst (onMarkerRemove i s) = (if i \<in> set (map info_id (known s)) then [Removed i] else [])"
  using erase_id_flag [of i "known s"]
  by (auto simp: onMarkerRemove_def split: prod.splits simp del: set_map)

lemma remove_twice:
  assumes "distinct (map info_id (known s))"
  shows "onMarkerRemove i (snd (onMarkerRemove i s)) = ([], snd (onMarkerRemove i s))"
proof -
  have "i \<notin> set (map info_id (known (snd (onMarkerRemove i s))))"
    using assms by (auto simp: known_remove)
  then show ?thesis by (rule remove_absent)
qed

lemma distinct_remove:
  assumes "distinct (map info_id (known s))"
  shows "distinct (map info_id (known (snd (onMarkerRemove i s))))"
  using assms by (simp add: known_remove distinct_map_filter)

text \<open>
  C4. In a registry whose ids are unique (as they are in every state of a running node:
  \<^verbatim>\<open>main\<close> registers each id \<open>i < 1024\<close> at most once, the two callbacks keep the ids
  unique, and no other callback writes the registry): registering \<open>m\<close> erases
  the entry with its id, if there is one, and appends the new entry, so that exactly one
  entry has the id, the new one, also when another message with the same id was
  registered just before; the callback returns a registry in every case. Removing an id
  that has no entry changes nothing and prints nothing, and so does a second removal of
  the same id.
\<close>

theorem registry_replace_remove:
  assumes "distinct (map info_id (known s))"
  shows
    "known (snd (onMarkerRegister c m s)) =
       filter (\<lambda>e. info_id e \<noteq> msg_id m) (known s)
         @ [new_ArucoMarkerInfo c (msg_id m) (msg_size m) (posx m, posy m, posz m)
              (rotx m, roty m, rotz m)] \<and>
     filter (\<lambda>e. info_id e = msg_id m) (known (snd (onMarkerRegister c m s))) =
       [new_ArucoMarkerInfo c (msg_id m) (msg_size m) (posx m, posy m, posz m)
          (rotx m, roty m, rotz m)] \<and>
     distinct (map info_id (known (snd (onMarkerRegister c m s)))) \<and>
     (msg_id m' = msg_id m \<longrightarrow>
        filter (\<lambda>e. info_id e = msg_id m)
          (known (snd (onMarkerRegister c m' (snd (onMarkerRegister c m s))))) =
        [new_ArucoMarkerInfo c (msg_id m') (msg_size m') (posx m', posy m', posz m')
           (rotx m', roty m', rotz m')]) \<and>
     (i \<notin> set (map info_id (known s)) \<longrightarrow> onMarkerRemove i s = ([], s)) \<and>
     onMarkerRemove i (snd (onMarkerRemove i s)) = ([], snd (onMarkerRemove i s)) \<and>
     distinct (map info_id (known (snd (onMarkerRemove i s))))"
proof (intro conjI impI)
  show "known (snd (onMarkerRegister c m s)) =
       filter (\<lambda>e. info_id e \<noteq> msg_id m) (known s)
         @ [new_ArucoMarkerInfo c (msg_id m) (msg_size m) (posx m, posy m, posz m)
              (rotx m, roty m, rotz m)]"
    using assms by (rule known_register)
  show "filter (\<lambda>e. info_id e = msg_id m) (known (snd (onMarkerRegister c m s))) =
       [new_ArucoMarkerInfo c (msg_id m) (msg_size m) (posx m, posy m, posz m)
          (rotx m, roty m, rotz m)]"
    using assms by (rule register_one_entry)
  show d: "distinct (map info_id (known (snd (onMarkerRegister c m s))))"
    using assms by (rule distinct_register)
  show "filter (\<lambda>e. info_id e = msg_id m)
          (known (snd (onMarkerRegister c m' (snd (onMarkerRegister c m s))))) =
        [new_ArucoMarkerInfo c (msg_id m') (msg_size m') (posx m', posy m', posz m')
           (rotx m', roty m', rotz m')]"
    if "msg_id m' = msg_id m"
    using register_one_entry [OF d, of m' c] that by simp
  show "onMarkerRemove i s = ([], s)" if "i \<notin> set (map info_id (known s))"
    using that by (rule remove_absent)
  show "onMarkerRemove i (snd (onMarkerRemove i s)) = ([], snd (onMarkerRemove i s))"
    using assms by (rule remove_twice)
  show "distinct (map info_id (known (snd (onMarkerRemove i s))))"
    using assms by (rule distinct_remove)
qed

theorem registry_replace_remove_witness:
  "distinct (map info_id (known (main_parameters no_parameters))) \<and>
   known (snd (onMarkerRegister example_corners (example_register 2)
      (snd (onMarkerRegister example_corners (example_register 1) (main_parameters no_parameters)))))
     = [new_ArucoMarkerInfo example_corners 7 2 (0, 0, 0) (0, 0, 0)] \<and>
   onMarkerRemove 5 (main_parameters no_parameters) = ([], main_parameters no_parameters)"
proof -
  define s0 where "s0 = main_parameters no_parameters"
  define s1 where "s1 = snd (onMarkerRegister example_corners (example_register 1) s0)"
  have k0: "known s0 = []" by (simp add: s0_def main_parameters_def)
  then have d0: "distinct (map info_id (known s0))" by simp
  have k1: "known s1 = [new_ArucoMarkerInfo example_corners 7 1 (0, 0, 0) (0, 0, 0)]"
    using registry_replace_remove [OF d0, of example_corners "example_register 1", THEN conjunct1]
    by (simp add: s1_def k0 example_register_def)
  then have d1: "distinct (map info_id (known s1))" by simp
  have k2: "known (snd (onMarkerRegister example_corners (example_register 2) s1)) =
      [new_ArucoMarkerInfo example_corners 7 2 (0, 0, 0) (0, 0, 0)]"
    using registry_replace_remove [OF d1, of example_corners "example_register 2", THEN conjunct1]
    by (simp add: k1 example_register_def)
  have "(5::int) \<notin> set (map info_id (known s0))" by (simp add: k0)
  with registry_replace_remove [OF d0, of example_corners "example_register 1" "example_register 1" 5]
  have r: "onMarkerRemove 5 s0 = ([], s0)" by blast
  from d0 k2 r show ?thesis unfolding s1_def s0_def by (intro conjI)
qed

subsection \<open>Correspondences of a frame\<close>

lemma match_known_closed:
  "match_known m kn (proj, wld, found) =
     ((if matching m kn = [] then m else m\<lparr>attached := Some (last (matching m kn))\<rparr>),
      proj @ concat (map (\<lambda>e. corners4 (projected m)) (matching m kn)),
      wld @ concat (map (\<lambda>e. corners4 (info_world e)) (matching m kn)),
      found @ map (\<lambda>e. m\<lparr>attached := Some e\<rparr>) (matching m kn))"
proof (induction kn arbitrary: m proj wld found)
  case Nil
  then show ?case by (simp add: matching_def)
next
  case (Cons e kn)
  show ?case
  proof (cases "marker_id m = info_id e")
    case True
    have m: "matching (m\<lparr>attached := Some e\<rparr>) kn = matching m kn"
      by (simp add: matching_def)
    show ?thesis
      using True by (simp add: Cons.IH m) (simp add: matching_def)
  next
    case False
    then have "matching m (e # kn) = matching m kn"
      by (auto simp: matching_def)
    with False show ?thesis by (simp add: Cons.IH)
  qed
qed

lemma match_markers_step:
  "snd (match_markers (m # ms) kn acc) = snd (match_markers ms kn (snd (match_known m kn acc)))"
  by (simp split: prod.splits)

lemma found_of_Cons:
  "found_of (m # ms) kn = map (\<lambda>e. m\<lparr>attached := Some e\<rparr>) (matching m kn) @ found_of ms kn"
  by (simp add: found_of_def)

lemma match_markers_closed:
  "snd (match_markers ms kn (proj, wld, found)) =
     (proj @ concat (map (\<lambda>m. corners4 (projected m)) (found_of ms kn)),
      wld @ concat (map (\<lambda>m. corners4 (info_world (the (attached m)))) (found_of ms kn)),
      found @ found_of ms kn)"
proof (induction ms arbitrary: proj wld found)
  case Nil
  then show ?case by (simp add: found_of_def)
next
  case (Cons m ms)
  have a: "concat (map (\<lambda>e. corners4 (projected m)) (matching m kn))
      = concat (map (\<lambda>x. corners4 (projected x)) (map (\<lambda>e. m\<lparr>attached := Some e\<rparr>) (matching m kn)))"
    by (simp add: comp_def)
  have b: "concat (map (\<lambda>e. corners4 (info_world e)) (matching m kn))
      = concat (map (\<lambda>x. corners4 (info_world (the (attached x))))
          (map (\<lambda>e. m\<lparr>attached := Some e\<rparr>) (matching m kn)))"
    by (simp add: comp_def)
  have "snd (match_markers (m # ms) kn (proj, wld, found)) =
     snd (match_markers ms kn
       (proj @ concat (map (\<lambda>e. corners4 (projected m)) (matching m kn)),
        wld @ concat (map (\<lambda>e. corners4 (info_world e)) (matching m kn)),
        found @ map (\<lambda>e. m\<lparr>attached := Some e\<rparr>) (matching m kn)))"
    by (simp only: match_markers_step match_known_closed snd_conv)
  also have "\<dots> =
     ((proj @ concat (map (\<lambda>e. corners4 (projected m)) (matching m kn)))
         @ concat (map (\<lambda>m. corners4 (projected m)) (found_of ms kn)),
      (wld @ concat (map (\<lambda>e. corners4 (info_world e)) (matching m kn)))
         @ concat (map (\<lambda>m. corners4 (info_world (the (attached m)))) (found_of ms kn)),
      (found @ map (\<lambda>e. m\<lparr>attached := Some e\<rparr>) (matching m kn)) @ found_of ms kn)"
    by (rule Cons.IH)
  also have "\<dots> =
     (proj @ concat (map (\<lambda>m. corners4 (projected m)) (found_of (m # ms) kn)),
      wld @ concat (map (\<lambda>m. corners4 (info_world (the (attached m)))) (found_of (m # ms) kn)),
      found @ found_of (m # ms) kn)"
    unfolding a b found_of_Cons by simp
  finally show ?case .
qed

lemma length_corners4 [simp]: "length (corners4 xs) = 4"
  by (simp add: corners4_def)

lemma length_concat_corners: "length (concat (map (\<lambda>m. corners4 (f m)) xs)) = 4 * length xs"
  by (induction xs) auto

lemma matching_distinct:
  "distinct (map info_id kn) \<Longrightarrow>
   length (matching m kn) = (if marker_id m \<in> set (map info_id kn) then 1 else 0)"
proof (induction kn)
  case Nil
  then show ?case by (simp add: matching_def)
next
  case (Cons e kn)
  then show ?case
    by (auto simp: matching_def filter_empty_conv)
qed

lemma found_of_distinct:
  "distinct (map info_id kn) \<Longrightarrow>
   length (found_of ms kn) = length (filter (\<lambda>m. marker_id m \<in> set (map info_id kn)) ms)"
proof (induction ms)
  case Nil
  then show ?case by (simp add: found_of_def)
next
  case (Cons m ms)
  show ?case
    using Cons by (simp add: found_of_Cons matching_distinct del: set_map)
qed

lemma onFrame_correspondences:
  assumes "toCvShare cv msg = Some frame"
  shows "fst (onFrame cv msg now key s) =
     (case snd (match_markers (detected cv frame s) (known s) ([], [], [])) of
        (proj, wld, found) \<Rightarrow>
          (if length wld > 0
           then pose_messages cv (threshold_update (length (detected cv frame s)) s) now wld proj
           else []) @ [Pub_visible (length wld \<noteq> 0)])"
  using assms
  by (simp add: onFrame_def detected_def Let_def threshold_update_def split: prod.splits)

text \<open>
  C7. The correspondences \<open>(projected, world)\<close> the matching loops build from the detected
  markers \<open>ms\<close> and the registry \<open>kn\<close> (from empty lists, as \<^verbatim>\<open>onFrame\<close> does): both have
  four entries for every marker in \<open>found\<close>, namely that marker's corners \<open>0..3\<close> in
  \<open>projected\<close> and the corners \<open>0..3\<close> of its attached registry entry in \<open>world\<close>, in the
  same order; so their lengths are equal and a multiple of 4, and \<open>world\<close> is non-empty
  exactly when it has at least 4 points. With unique registry ids, \<open>found\<close> holds every
  detected marker whose id is registered exactly once.
\<close>

theorem correspondences_multiple_of_4:
  "(case snd (match_markers ms kn ([], [], [])) of
      (proj, wld, found) \<Rightarrow>
        found = found_of ms kn \<and>
        proj = concat (map (\<lambda>m. corners4 (projected m)) found) \<and>
        wld = concat (map (\<lambda>m. corners4 (info_world (the (attached m)))) found) \<and>
        length proj = 4 * length found \<and> length wld = 4 * length found \<and>
        4 dvd length wld \<and> (wld \<noteq> [] \<longleftrightarrow> 4 \<le> length wld) \<and>
        (distinct (map info_id kn) \<longrightarrow>
           length found = length (filter (\<lambda>m. marker_id m \<in> set (map info_id kn)) ms)))"
proof -
  define found where "found = found_of ms kn"
  define proj where "proj = concat (map (\<lambda>m. corners4 (projected m)) found)"
  define wld where "wld = concat (map (\<lambda>m. corners4 (info_world (the (attached m)))) found)"
  have r: "snd (match_markers ms kn ([], [], [])) = (proj, wld, found)"
    by (simp add: match_markers_closed proj_def wld_def found_def)
  have lp: "length proj = 4 * length found"
    unfolding proj_def by (rule length_concat_corners)
  have lw: "length wld = 4 * length found"
    unfolding wld_def by (rule length_concat_corners)
  have dv: "4 dvd length wld" by (simp add: lw)
  have ne: "wld \<noteq> [] \<longleftrightarrow> 4 \<le> length wld"
    using lw by (cases wld) auto
  have di: "length found = length (filter (\<lambda>m. marker_id m \<in> set (map info_id kn)) ms)"
    if "distinct (map info_id kn)"
    unfolding found_def using that by (rule found_of_distinct)
  show ?thesis
    unfolding r prod.case
    using found_def proj_def wld_def lp lw dv ne di by (intro conjI impI)
qed

theorem correspondences_multiple_of_4_witness:
  "distinct (map info_id [new_ArucoMarkerInfo example_corners 3 1 (0, 0, 0) (0, 0, 0)]) \<and>
   length (fst (snd (snd (match_markers [example_marker 3, example_marker 9]
       [new_ArucoMarkerInfo example_corners 3 1 (0, 0, 0) (0, 0, 0)] ([], [], []))))) = 4 \<and>
   length (fst (snd (match_markers [example_marker 3, example_marker 9]
       [new_ArucoMarkerInfo example_corners 3 1 (0, 0, 0) (0, 0, 0)] ([], [], [])))) = 4"
proof -
  define kn where "kn = [new_ArucoMarkerInfo example_corners 3 1 (0, 0, 0) (0, 0, 0)]"
  define ms where "ms = [example_marker 3, example_marker 9]"
  obtain proj wld found where r: "snd (match_markers ms kn ([], [], [])) = (proj, wld, found)"
    by (cases "snd (match_markers ms kn ([], [], []))")
  have d: "distinct (map info_id kn)" by (simp add: kn_def)
  have f: "length (filter (\<lambda>m. marker_id m \<in> set (map info_id kn)) ms) = 1"
    by (simp add: kn_def ms_def example_marker_def)
  note t = correspondences_multiple_of_4 [of ms kn, unfolded r prod.case]
  from t d have l: "length found = length (filter (\<lambda>m. marker_id m \<in> set (map info_id kn)) ms)"
    by blast
  from t have "length proj = 4 * length found" "length wld = 4 * length found"
    by blast+
  with l f have "length proj = 4 \<and> length wld = 4" by simp
  then have "length (fst (snd (match_markers ms kn ([], [], [])))) = 4 \<and>
     length (fst (snd (snd (match_markers ms kn ([], [], []))))) = 4"
    by (simp add: r)
  with d show ?thesis unfolding kn_def ms_def by simp
qed

subsection \<open>Camera calibration\<close>

lemma fold_copy:
  "n \<le> length m \<Longrightarrow> n \<le> length src \<Longrightarrow>
   fold (\<lambda>i m. m[i := src ! i]) [0..<n] m = take n src @ drop n m"
proof (induction n)
  case 0
  then show ?case by simp
next
  case (Suc n)
  then have IH: "fold (\<lambda>i m. m[i := src ! i]) [0..<n] m = take n src @ drop n m"
    by simp
  have "(take n src @ drop n m)[n := src ! n] = take n src @ (drop n m)[0 := src ! n]"
    using Suc.prems by (simp add: list_update_append)
  also have "(drop n m)[0 := src ! n] = src ! n # drop (Suc n) m"
  proof -
    have "drop n m = m ! n # drop (Suc n) m"
      using Suc.prems by (simp add: Cons_nth_drop_Suc)
    then show ?thesis by simp
  qed
  finally show ?case
    using Suc.prems by (simp add: IH take_Suc_conv_app_nth)
qed

lemma set_calibration_copy:
  assumes "length m = 9" "9 \<le> length src"
  shows "set_calibration src m = take 9 src"
proof -
  have "(\<lambda>i m. m[(i div 3) * 3 + i mod 3 := src ! i]) = (\<lambda>i (m :: real list). m[i := src ! i])"
    by (intro ext) simp
  then have "set_calibration src m = fold (\<lambda>i m. m[i := src ! i]) [0..<9] m"
    by (simp only: set_calibration_def)
  also have "\<dots> = take 9 src @ drop 9 m"
    using assms by (intro fold_copy) simp_all
  finally show ?thesis using assms by simp
qed

lemma set_distortion_copy:
  assumes "length m = 5" "5 \<le> length src"
  shows "set_distortion src m = take 5 src"
proof -
  have "set_distortion src m = take 5 src @ drop 5 m"
    unfolding set_distortion_def using assms by (intro fold_copy) simp_all
  then show ?thesis using assms by simp
qed

lemma onCameraInfo_first:
  assumes "\<not> calibrated s" "length (calibration s) = 9" "length (distortion s) = 5"
    "length (cam_k m) = 9" "5 \<le> length (cam_d m)"
  shows "onCameraInfo m s =
     Inr (s\<lparr>calibrated := True, calibration := cam_k m, distortion := take 5 (cam_d m)\<rparr>)"
  using assms by (simp add: onCameraInfo_def set_calibration_copy set_distortion_copy)

lemma onCameraInfo_later: "calibrated s \<Longrightarrow> onCameraInfo m s = Inr s"
  by (simp add: onCameraInfo_def)

lemma onCameraInfos_later: "calibrated s \<Longrightarrow> onCameraInfos ms s = Inr s"
  by (induction ms) (simp_all add: onCameraInfo_later)

lemma main_parameters_matrices:
  "length (calibration (main_parameters p)) = 9" "length (distortion (main_parameters p)) = 5"
  by (simp_all add: main_parameters_def data_calibration_def data_distortion_def)

lemma calibrated_node:
  "calibrated (main_parameters (no_parameters\<lparr>p_calibrated := Some True\<rparr>)) = True"
  "calibration (main_parameters (no_parameters\<lparr>p_calibrated := Some True\<rparr>)) = data_calibration"
  by (simp_all add: main_parameters_def no_parameters_def get_parameter_or_def)

text \<open>
  C8. The claim: the first camera-info message sets the calibration matrix and the
  distortion vector and marks the model calibrated; every later one leaves them unchanged.

  \<^verbatim>\<open>onCameraInfo\<close> writes only while \<^verbatim>\<open>calibrated\<close> is false, and \<^verbatim>\<open>main\<close> sets the flag
  from the parameter \<^verbatim>\<open>calibrated\<close> (and after a calibration or distortion override): a
  node started with \<^verbatim>\<open>calibrated = true\<close> ignores its first camera-info message and keeps
  the built-in matrix.
\<close>

theorem camera_info_latch_counterexample:
  "onCameraInfo (example_camera_info 500)
     (main_parameters (no_parameters\<lparr>p_calibrated := Some True\<rparr>)) =
     Inr (main_parameters (no_parameters\<lparr>p_calibrated := Some True\<rparr>)) \<and>
   calibration (main_parameters (no_parameters\<lparr>p_calibrated := Some True\<rparr>)) = data_calibration \<and>
   data_calibration \<noteq> cam_k (example_camera_info 500)"
  by (simp add: onCameraInfo_def calibrated_node data_calibration_def example_camera_info_def)

text \<open>
  C8, amended. For a camera model of a 3x3 matrix and 5 coefficients (as \<^verbatim>\<open>main\<close> builds
  it) and a first camera-info message with the 9 entries of \<open>k\<close> and at least 5 distortion
  coefficients: if the model is not calibrated when the message arrives, the message sets
  the calibration matrix to \<open>k\<close>, the distortion vector to the first 5 coefficients and the
  flag \<^verbatim>\<open>calibrated\<close>, and every camera-info message after it, whatever it holds, leaves
  the whole state unchanged; if the model is calibrated already, the first message and
  every later one leave the state unchanged.
\<close>

theorem camera_info_latch:
  assumes "length (calibration s) = 9" "length (distortion s) = 5"
    "length (cam_k m) = 9" "5 \<le> length (cam_d m)"
  shows
    "(\<not> calibrated s \<longrightarrow>
        onCameraInfo m s =
          Inr (s\<lparr>calibrated := True, calibration := cam_k m, distortion := take 5 (cam_d m)\<rparr>) \<and>
        (\<forall>ms. onCameraInfos (m # ms) s =
           Inr (s\<lparr>calibrated := True, calibration := cam_k m, distortion := take 5 (cam_d m)\<rparr>))) \<and>
     (calibrated s \<longrightarrow> (\<forall>ms. onCameraInfos (m # ms) s = Inr s))"
proof (intro conjI impI allI)
  assume n: "\<not> calibrated s"
  show f: "onCameraInfo m s =
       Inr (s\<lparr>calibrated := True, calibration := cam_k m, distortion := take 5 (cam_d m)\<rparr>)"
    using n assms by (rule onCameraInfo_first)
  have "onCameraInfos ms
      (s\<lparr>calibrated := True, calibration := cam_k m, distortion := take 5 (cam_d m)\<rparr>) =
       Inr (s\<lparr>calibrated := True, calibration := cam_k m, distortion := take 5 (cam_d m)\<rparr>)" for ms
    by (rule onCameraInfos_later) simp
  with f show "onCameraInfos (m # ms) s =
       Inr (s\<lparr>calibrated := True, calibration := cam_k m, distortion := take 5 (cam_d m)\<rparr>)" for ms
    by simp
next
  assume "calibrated s"
  then show "onCameraInfos (m # ms) s = Inr s" for ms
    by (rule onCameraInfos_later)
qed

theorem camera_info_latch_witness:
  "\<not> calibrated (main_parameters no_parameters) \<and>
   length (cam_k (example_camera_info 500)) = 9 \<and>
   onCameraInfos [example_camera_info 500, example_camera_info 600, \<lparr>cam_k = [], cam_d = []\<rparr>]
      (main_parameters no_parameters) =
     Inr ((main_parameters no_parameters)
            \<lparr>calibrated := True, calibration := [500, 0, 320, 0, 500, 240, 0, 0, 1],
             distortion := [500, 0, 0, 0, 0]\<rparr>)"
proof -
  have c: "\<not> calibrated (main_parameters no_parameters)"
    by (simp add: main_parameters_def no_parameters_def get_parameter_or_def)
  have k: "length (cam_k (example_camera_info 500)) = 9" "5 \<le> length (cam_d (example_camera_info 500))"
    by (simp_all add: example_camera_info_def)
  from camera_info_latch [OF main_parameters_matrices k, THEN conjunct1, rule_format, OF c,
      THEN conjunct2, rule_format, of "[example_camera_info 600, \<lparr>cam_k = [], cam_d = []\<rparr>]"]
  have "onCameraInfos [example_camera_info 500, example_camera_info 600, \<lparr>cam_k = [], cam_d = []\<rparr>]
      (main_parameters no_parameters) =
     Inr ((main_parameters no_parameters)
            \<lparr>calibrated := True, calibration := [500, 0, 320, 0, 500, 240, 0, 0, 1],
             distortion := [500, 0, 0, 0, 0]\<rparr>)"
    by (simp add: example_camera_info_def)
  with c k(1) show ?thesis by (intro conjI)
qed

subsection \<open>The threshold block size\<close>

lemma int32_id: "in_int32 x \<Longrightarrow> int32 x = x"
  by (simp add: in_int32_def int32_def)

lemma c_div_2: "c_div x 2 = (if 0 \<le> x then x div 2 else - ((- x) div 2))"
  by (simp add: c_div_def sgn_if)

lemma c_mod_2_even: "(c_mod x 2 = 0) = even x"
  unfolding c_mod_def c_div_2 by presburger

lemma initial_block_size_ok:
  assumes "odd mn" "odd mx" "mn \<le> mx" "in_int32 (mn + mx)" "in_int32 (mx + 2)"
  shows "mn \<le> initial_block_size mn mx \<and> initial_block_size mn mx \<le> mx \<and>
     odd (initial_block_size mn mx) \<and>
     initial_block_size mn mx =
       (if even ((mn + mx) div 2) then (mn + mx) div 2 + 1 else (mn + mx) div 2)"
proof -
  obtain a b where a: "mn = 2 * a + 1" and b: "mx = 2 * b + 1"
    using assms(1,2) by (auto elim!: oddE)
  have s: "int32 (mn + mx) = mn + mx" using assms(4) by (rule int32_id)
  have d: "c_div (mn + mx) 2 = a + b + 1"
    unfolding a b c_div_2 by auto
  have h: "(mn + mx) div 2 = a + b + 1"
    unfolding a b by simp
  have ab: "a \<le> b" using assms(3) a b by simp
  show ?thesis
  proof (cases "even (a + b + 1)")
    case True
    then have m: "c_mod (a + b + 1) 2 = 0"
      by (simp add: c_mod_2_even)
    have "in_int32 (a + b + 1 + 1)"
      using assms(4,5) ab a b by (simp add: in_int32_def)
    then have i: "initial_block_size mn mx = a + b + 2"
      by (simp add: initial_block_size_def s d m int32_id)
    from True ab have "a < b" by (cases "a = b") auto
    then show ?thesis unfolding i h using True by (simp add: a b)
  next
    case False
    then have m: "c_mod (a + b + 1) 2 \<noteq> 0"
      by (simp add: c_mod_2_even)
    then have i: "initial_block_size mn mx = a + b + 1"
      by (simp add: initial_block_size_def s d)
    show ?thesis unfolding i h using False ab by (simp add: a b)
  qed
qed

lemma threshold_update_ok:
  assumes "bounds_ok s" "block_size_ok s"
  shows "block_size_ok (threshold_update n s) \<and> bounds_ok (threshold_update n s)"
proof -
  have "in_int32 (theshold_block_size s + 2)"
    using assms by (simp add: bounds_ok_def block_size_ok_def in_int32_def)
  then have "int32 (theshold_block_size s + 2) = theshold_block_size s + 2"
    by (rule int32_id)
  then show ?thesis
    using assms by (auto simp: threshold_update_def bounds_ok_def block_size_ok_def)
qed

lemma threshold_update_frame:
  "theshold_block_size_min (threshold_update n s) = theshold_block_size_min s \<and>
   theshold_block_size_max (threshold_update n s) = theshold_block_size_max s \<and>
   debug (threshold_update n s) = debug s \<and> known (threshold_update n s) = known s \<and>
   calibrated (threshold_update n s) = calibrated s \<and>
   calibration (threshold_update n s) = calibration s \<and>
   distortion (threshold_update n s) = distortion s"
  by (simp add: threshold_update_def)

lemma debug_keys_idle:
  "\<not> tuning_key key \<Longrightarrow> theshold_block_size (debug_keys key s) = theshold_block_size s"
  by (simp add: debug_keys_def key_area_def key_error_def key_threshold_def key_cosine_def
      tuning_key_def)

lemma debug_keys_frame:
  "theshold_block_size_min (debug_keys key s) = theshold_block_size_min s \<and>
   theshold_block_size_max (debug_keys key s) = theshold_block_size_max s \<and>
   debug (debug_keys key s) = debug s \<and> known (debug_keys key s) = known s \<and>
   calibrated (debug_keys key s) = calibrated s \<and>
   calibration (debug_keys key s) = calibration s \<and>
   distortion (debug_keys key s) = distortion s"
  by (simp add: debug_keys_def key_area_def key_error_def key_threshold_def key_cosine_def)

lemma onFrame_state:
  "snd (onFrame cv msg now key s) =
     (case toCvShare cv msg of
        None \<Rightarrow> s
      | Some frame \<Rightarrow>
          if debug s then debug_keys key (threshold_update (length (detected cv frame s)) s)
          else threshold_update (length (detected cv frame s)) s)"
  by (simp add: onFrame_def detected_def Let_def threshold_update_frame
      split: option.splits prod.splits)

lemma onFrame_known: "known (snd (onFrame cv msg now key s)) = known s"
  by (simp add: onFrame_state debug_keys_frame threshold_update_frame split: option.splits)

lemma onCameraInfo_known: "onCameraInfo m s = Inr s' \<Longrightarrow> known s' = known s"
  by (auto simp: onCameraInfo_def split: if_splits)

lemma onFrame_published:
  "toCvShare cv msg = Some frame \<Longrightarrow> detected cv frame s = [] \<Longrightarrow>
   fst (onFrame cv msg now key s) = [Pub_visible False]"
  by (simp add: onFrame_def detected_def Let_def)

lemma onFrame_ok:
  assumes "bounds_ok s" "block_size_ok s" "debug s \<longrightarrow> \<not> tuning_key key"
  shows "bounds_ok (snd (onFrame cv msg now key s)) \<and>
     block_size_ok (snd (onFrame cv msg now key s)) \<and>
     debug (snd (onFrame cv msg now key s)) = debug s \<and>
     theshold_block_size_min (snd (onFrame cv msg now key s)) = theshold_block_size_min s \<and>
     theshold_block_size_max (snd (onFrame cv msg now key s)) = theshold_block_size_max s"
proof (cases "toCvShare cv msg")
  case None
  with assms show ?thesis by (simp add: onFrame_state)
next
  case (Some frame)
  define t where "t = threshold_update (length (detected cv frame s)) s"
  have t: "block_size_ok t \<and> bounds_ok t"
    unfolding t_def using assms(1,2) by (rule threshold_update_ok)
  have dt: "debug t = debug s" "theshold_block_size_min t = theshold_block_size_min s"
    "theshold_block_size_max t = theshold_block_size_max s"
    by (simp_all add: t_def threshold_update_frame)
  show ?thesis
  proof (cases "debug s")
    case True
    with assms(3) have k: "\<not> tuning_key key" by simp
    have "snd (onFrame cv msg now key s) = debug_keys key t"
      using Some True by (simp add: onFrame_state t_def)
    moreover have "bounds_ok (debug_keys key t) \<and> block_size_ok (debug_keys key t)"
      using t by (simp add: bounds_ok_def block_size_ok_def debug_keys_frame debug_keys_idle [OF k])
    ultimately show ?thesis by (simp add: debug_keys_frame dt)
  next
    case False
    then have "snd (onFrame cv msg now key s) = t"
      using Some by (simp add: onFrame_state t_def)
    with t dt show ?thesis by simp
  qed
qed

lemma onFrames_ok:
  assumes "bounds_ok s" "block_size_ok s"
    "\<forall>f\<in>set frames. debug s \<longrightarrow> \<not> tuning_key (snd (snd f))"
  shows "bounds_ok (onFrames cv frames s) \<and> block_size_ok (onFrames cv frames s) \<and>
     debug (onFrames cv frames s) = debug s \<and>
     theshold_block_size_min (onFrames cv frames s) = theshold_block_size_min s \<and>
     theshold_block_size_max (onFrames cv frames s) = theshold_block_size_max s"
  using assms
proof (induction frames arbitrary: s)
  case Nil
  then show ?case by simp
next
  case (Cons f frames)
  obtain msg now key where f: "f = (msg, now, key)" by (cases f)
  have k: "debug s \<longrightarrow> \<not> tuning_key key" using Cons.prems(3) f by simp
  note st = onFrame_ok [OF Cons.prems(1,2) k, of cv msg now]
  define t where "t = snd (onFrame cv msg now key s)"
  have "bounds_ok (onFrames cv frames t) \<and> block_size_ok (onFrames cv frames t) \<and>
     debug (onFrames cv frames t) = debug t \<and>
     theshold_block_size_min (onFrames cv frames t) = theshold_block_size_min t \<and>
     theshold_block_size_max (onFrames cv frames t) = theshold_block_size_max t"
  proof (rule Cons.IH)
    show "bounds_ok t" using st by (simp add: t_def)
    show "block_size_ok t" using st by (simp add: t_def)
    show "\<forall>f\<in>set frames. debug t \<longrightarrow> \<not> tuning_key (snd (snd f))"
      using st Cons.prems(3) by (simp add: t_def)
  qed
  moreover have "onFrames cv (f # frames) s = onFrames cv frames t"
    by (simp add: f t_def)
  ultimately show ?case using st by (simp add: t_def)
qed

lemma onFrame_step:
  assumes "toCvShare cv msg = Some frame" "debug s \<longrightarrow> \<not> tuning_key key"
    "in_int32 (theshold_block_size s + 2)"
  shows "theshold_block_size (snd (onFrame cv msg now key s)) =
     (if detected cv frame s = [] then
        (if theshold_block_size s + 2 > theshold_block_size_max s then theshold_block_size_min s
         else theshold_block_size s + 2)
      else theshold_block_size s)"
proof -
  have i: "int32 (theshold_block_size s + 2) = theshold_block_size s + 2"
    using assms(3) by (rule int32_id)
  have "theshold_block_size (snd (onFrame cv msg now key s)) =
      theshold_block_size (threshold_update (length (detected cv frame s)) s)"
    using assms(1,2) by (simp add: onFrame_state debug_keys_idle)
  then show ?thesis by (simp add: threshold_update_def i)
qed

text \<open>
  The state \<^verbatim>\<open>main\<close> hands to the callbacks: the overrides and the marker parameters leave
  the block size and its bounds as \<open>main_parameters\<close> set them, and the ids of the known
  markers are unique.
\<close>

lemma main_marker_Inr:
  assumes "main_marker bits stod corners uninit p i r = Inr s'"
  shows "\<exists>s. r = Inr s \<and>
     theshold_block_size s' = theshold_block_size s \<and>
     theshold_block_size_min s' = theshold_block_size_min s \<and>
     theshold_block_size_max s' = theshold_block_size_max s \<and>
     (known s' = known s \<or> (\<exists>e. info_id e = int i \<and> known s' = known s @ [e]))"
  using assms
  by (cases r)
    (auto simp: main_marker_def marker_of_values_def new_ArucoMarkerInfo_def
      split: if_splits sum.splits)

lemma main_markers_upto:
  assumes "fold (main_marker bits stod corners uninit p) [0..<n] (Inr s) = Inr s'" "known s = []"
  shows "theshold_block_size s' = theshold_block_size s \<and>
     theshold_block_size_min s' = theshold_block_size_min s \<and>
     theshold_block_size_max s' = theshold_block_size_max s \<and>
     distinct (map info_id (known s')) \<and> (\<forall>e\<in>set (known s'). info_id e < int n)"
  using assms
proof (induction n arbitrary: s')
  case 0
  then show ?case by simp
next
  case (Suc n)
  from Suc.prems(1) have
    "main_marker bits stod corners uninit p n
       (fold (main_marker bits stod corners uninit p) [0..<n] (Inr s)) = Inr s'"
    by simp
  from main_marker_Inr [OF this] obtain t where
    t: "fold (main_marker bits stod corners uninit p) [0..<n] (Inr s) = Inr t"
    and f: "theshold_block_size s' = theshold_block_size t"
      "theshold_block_size_min s' = theshold_block_size_min t"
      "theshold_block_size_max s' = theshold_block_size_max t"
    and k: "known s' = known t \<or> (\<exists>e. info_id e = int n \<and> known s' = known t @ [e])"
    by blast
  note IH = Suc.IH [OF t Suc.prems(2)]
  have "distinct (map info_id (known s')) \<and> (\<forall>e\<in>set (known s'). info_id e < int (Suc n))"
    using k IH by fastforce
  with IH f show ?case by simp
qed

lemma main_calibration_frame:
  assumes "main_calibration bits stod uninit p s = Inr s'"
  shows "theshold_block_size s' = theshold_block_size s \<and>
     theshold_block_size_min s' = theshold_block_size_min s \<and>
     theshold_block_size_max s' = theshold_block_size_max s \<and> known s' = known s"
  using assms by (auto simp: main_calibration_def split: if_splits sum.splits)

lemma main_distortion_frame:
  assumes "main_distortion bits stod uninit p s = Inr s'"
  shows "theshold_block_size s' = theshold_block_size s \<and>
     theshold_block_size_min s' = theshold_block_size_min s \<and>
     theshold_block_size_max s' = theshold_block_size_max s \<and> known s' = known s"
  using assms by (auto simp: main_distortion_def split: if_splits sum.splits)

lemma main_setup_start:
  assumes "main_setup bits stod corners u9 u5 u7 p = Inr s"
  shows "theshold_block_size s =
       initial_block_size (theshold_block_size_min s) (theshold_block_size_max s) \<and>
     distinct (map info_id (known s))"
proof -
  from assms obtain s1 s2 where
    1: "main_calibration bits stod u9 p (main_parameters p) = Inr s1" and
    2: "main_distortion bits stod u5 p s1 = Inr s2" and
    3: "main_markers bits stod corners u7 p s2 = Inr s"
    by (auto simp: main_setup_def split: sum.splits)
  note a = main_calibration_frame [OF 1]
  note b = main_distortion_frame [OF 2]
  have k: "known s2 = []" using a b by (simp add: main_parameters_def)
  from 3 have "fold (main_marker bits stod corners u7 p) [0..<1024] (Inr s2) = Inr s"
    by (simp add: main_markers_def)
  note c = main_markers_upto [OF this k]
  have "theshold_block_size (main_parameters p) =
     initial_block_size (theshold_block_size_min (main_parameters p))
       (theshold_block_size_max (main_parameters p))"
    by (simp add: main_parameters_def)
  with a b c show ?thesis by simp
qed

text \<open>The ids of the registry are unique in every state of a running node.\<close>

lemma reachable_distinct:
  "reachable bits stod corners cv s \<Longrightarrow> distinct (map info_id (known s))"
proof (induction rule: reachable.induct)
  case (started u9 u5 u7 p s)
  then show ?case by (simp add: main_setup_start)
next
  case (frame s msg now key)
  then show ?case by (simp add: onFrame_known)
next
  case (camera_info s m s')
  then show ?case by (simp add: onCameraInfo_known)
next
  case (registered s m)
  then show ?case by (simp add: distinct_register)
next
  case (removed s i)
  then show ?case by (simp add: distinct_remove)
qed

lemma default_node:
  "theshold_block_size (main_parameters no_parameters) = 13"
  "theshold_block_size_min (main_parameters no_parameters) = 3"
  "theshold_block_size_max (main_parameters no_parameters) = 21"
  "debug (main_parameters no_parameters) = False"
  "known (main_parameters no_parameters) = []"
  by (simp_all add: main_parameters_def no_parameters_def get_parameter_or_def
      initial_block_size_def int32_def c_div_def c_mod_def)

lemma debug_node:
  "theshold_block_size (main_parameters (no_parameters\<lparr>p_debug := Some True\<rparr>)) = 13"
  "theshold_block_size_min (main_parameters (no_parameters\<lparr>p_debug := Some True\<rparr>)) = 3"
  "theshold_block_size_max (main_parameters (no_parameters\<lparr>p_debug := Some True\<rparr>)) = 21"
  "debug (main_parameters (no_parameters\<lparr>p_debug := Some True\<rparr>)) = True"
  "known (main_parameters (no_parameters\<lparr>p_debug := Some True\<rparr>)) = []"
  by (simp_all add: main_parameters_def no_parameters_def get_parameter_or_def
      initial_block_size_def int32_def c_div_def c_mod_def)

lemma example_cv_frame: "toCvShare (example_cv ms) msg = Some msg" "detected (example_cv ms) frame s = ms"
  by (simp_all add: example_cv_def detected_def)

text \<open>
  C2. The claim: starting from the midpoint of the bounds forced to an odd value, every
  frame without candidates advances the block size by 2, wrapping to the minimum past
  the maximum, every frame with a candidate leaves it unchanged, and so, for odd bounds,
  the block size stays odd and within the bounds.

  In the debug window the key \<open>w\<close> adds 2 to the block size and the key \<open>s\<close> subtracts 2,
  whatever the detector found; and nothing orders the two bounds. With
  \<^verbatim>\<open>debug\<close> set and the key \<open>w\<close>, a frame with a candidate moves the block size from 13 to
  15; for the odd bounds 5 and 3 the initial block size is 5, above the maximum.
\<close>

theorem block_size_walk_counterexample:
  "detected (example_cv [example_marker 3]) ()
     (main_parameters (no_parameters\<lparr>p_debug := Some True\<rparr>)) \<noteq> [] \<and>
   theshold_block_size (main_parameters (no_parameters\<lparr>p_debug := Some True\<rparr>)) = 13 \<and>
   theshold_block_size
     (snd (onFrame (example_cv [example_marker 3]) () 0 (CHR ''w'')
        (main_parameters (no_parameters\<lparr>p_debug := Some True\<rparr>)))) = 15 \<and>
   initial_block_size 5 3 = 5"
  by (simp add: onFrame_state example_cv_frame debug_node threshold_update_def debug_keys_def
      key_area_def key_error_def key_threshold_def key_cosine_def
      initial_block_size_def int32_def c_div_def c_mod_def)

text \<open>
  C2, amended. Let the bounds be odd, with \<open>min \<le> max\<close>, and such that \<open>min + max\<close> and
  \<open>max + 2\<close> are values of \<^verbatim>\<open>int\<close>; let the block size start at the midpoint of the bounds,
  made odd by adding 1 if it is even (the state \<^verbatim>\<open>main\<close> builds); and let no frame be
  handled with the key \<open>w\<close> or \<open>s\<close> pressed in the debug window. Then the initial block size
  and the block size after any sequence of frames are odd and within the bounds, and the
  next frame that is decoded moves it by 2, or to the minimum if that exceeds the maximum,
  when the detector returns no candidate, and leaves it unchanged otherwise.
\<close>

theorem block_size_walk:
  assumes "bounds_ok s"
    and "theshold_block_size s =
       initial_block_size (theshold_block_size_min s) (theshold_block_size_max s)"
    and "\<forall>f\<in>set frames. debug s \<longrightarrow> \<not> tuning_key (snd (snd f))"
  shows
    "block_size_ok s \<and>
     theshold_block_size s =
       (if even ((theshold_block_size_min s + theshold_block_size_max s) div 2)
        then (theshold_block_size_min s + theshold_block_size_max s) div 2 + 1
        else (theshold_block_size_min s + theshold_block_size_max s) div 2) \<and>
     block_size_ok (onFrames cv frames s) \<and>
     (\<forall>msg now key frame.
        toCvShare cv msg = Some frame \<longrightarrow> (debug s \<longrightarrow> \<not> tuning_key key) \<longrightarrow>
        theshold_block_size (snd (onFrame cv msg now key (onFrames cv frames s))) =
          (if detected cv frame (onFrames cv frames s) = [] then
             (if theshold_block_size (onFrames cv frames s) + 2 > theshold_block_size_max s
              then theshold_block_size_min s
              else theshold_block_size (onFrames cv frames s) + 2)
           else theshold_block_size (onFrames cv frames s)))"
proof -
  note i = initial_block_size_ok [of "theshold_block_size_min s" "theshold_block_size_max s"]
  have init: "theshold_block_size_min s \<le> theshold_block_size s \<and>
     theshold_block_size s \<le> theshold_block_size_max s \<and> odd (theshold_block_size s) \<and>
     theshold_block_size s =
       (if even ((theshold_block_size_min s + theshold_block_size_max s) div 2)
        then (theshold_block_size_min s + theshold_block_size_max s) div 2 + 1
        else (theshold_block_size_min s + theshold_block_size_max s) div 2)"
    unfolding assms(2) using assms(1) by (intro i) (simp_all add: bounds_ok_def)
  then have ok: "block_size_ok s" by (simp add: block_size_ok_def)
  note inv = onFrames_ok [OF assms(1) ok assms(3), of cv]
  have step: "theshold_block_size (snd (onFrame cv msg now key (onFrames cv frames s))) =
          (if detected cv frame (onFrames cv frames s) = [] then
             (if theshold_block_size (onFrames cv frames s) + 2 > theshold_block_size_max s
              then theshold_block_size_min s
              else theshold_block_size (onFrames cv frames s) + 2)
           else theshold_block_size (onFrames cv frames s))"
    if "toCvShare cv msg = Some frame" "debug s \<longrightarrow> \<not> tuning_key key" for msg now key frame
  proof -
    have "in_int32 (theshold_block_size (onFrames cv frames s) + 2)"
      using inv by (simp add: bounds_ok_def block_size_ok_def in_int32_def)
    moreover have "debug (onFrames cv frames s) \<longrightarrow> \<not> tuning_key key"
      using inv that(2) by simp
    ultimately show ?thesis
      using onFrame_step [OF that(1), of "onFrames cv frames s" key now] inv by simp
  qed
  from ok init inv step show ?thesis by blast
qed

theorem block_size_walk_witness:
  "bounds_ok (main_parameters no_parameters) \<and>
   theshold_block_size (main_parameters no_parameters) = initial_block_size 3 21 \<and>
   block_size_ok (main_parameters no_parameters) \<and>
   block_size_ok
     (onFrames (example_cv []) [((), 0, CHR ''w''), ((), 1, CHR ''x'')]
        (main_parameters no_parameters))"
proof -
  have b: "bounds_ok (main_parameters no_parameters)"
    by (simp add: bounds_ok_def default_node in_int32_def)
  have i: "theshold_block_size (main_parameters no_parameters) =
     initial_block_size (theshold_block_size_min (main_parameters no_parameters))
       (theshold_block_size_max (main_parameters no_parameters))"
    by (simp add: main_parameters_def)
  have k: "\<forall>f\<in>set [((), 0::nat, CHR ''w''), ((), 1, CHR ''x'')].
      debug (main_parameters no_parameters) \<longrightarrow> \<not> tuning_key (snd (snd f))"
    by (simp add: default_node)
  note t = block_size_walk [OF b i k, of "example_cv []"]
  from i have i': "theshold_block_size (main_parameters no_parameters) = initial_block_size 3 21"
    by (simp add: default_node)
  from b i' t [THEN conjunct1] t [THEN conjunct2, THEN conjunct2, THEN conjunct1]
  show ?thesis by (intro conjI)
qed

subsection \<open>A frame without candidates\<close>

text \<open>
  C6. The claim: on every frame for which the detector returns no candidate, the handler
  publishes \<open>visible = false\<close> and nothing else, and the block size has advanced by 2
  (or wrapped to the minimum).

  With \<^verbatim>\<open>debug\<close> set and the key \<open>w\<close> pressed, the handler adds 2 a second time before it
  returns: from the block size 13 such a frame leads to 17.
\<close>

theorem no_candidates_frame_counterexample:
  "detected (example_cv []) () (main_parameters (no_parameters\<lparr>p_debug := Some True\<rparr>)) = [] \<and>
   theshold_block_size (main_parameters (no_parameters\<lparr>p_debug := Some True\<rparr>)) = 13 \<and>
   theshold_block_size_max (main_parameters (no_parameters\<lparr>p_debug := Some True\<rparr>)) = 21 \<and>
   fst (onFrame (example_cv []) () 0 (CHR ''w'')
        (main_parameters (no_parameters\<lparr>p_debug := Some True\<rparr>))) = [Pub_visible False] \<and>
   theshold_block_size
     (snd (onFrame (example_cv []) () 0 (CHR ''w'')
        (main_parameters (no_parameters\<lparr>p_debug := Some True\<rparr>)))) = 17"
  by (simp add: onFrame_state onFrame_published example_cv_frame debug_node threshold_update_def
      debug_keys_def key_area_def key_error_def key_threshold_def key_cosine_def int32_def)

text \<open>
  C6, amended. On every frame that is decoded and for which the detector returns no
  candidate, handled without the key \<open>w\<close> or \<open>s\<close> pressed in the debug window and with a
  block size that 2 can be added to within \<^verbatim>\<open>int\<close>: the handler publishes
  \<open>visible = false\<close> and no position, rotation or pose; the block size has advanced by 2,
  or is the minimum if that exceeds the maximum; the registry and the camera model are
  unchanged; and without \<^verbatim>\<open>debug\<close> nothing but the block size has changed. The handler
  returns a state, from which the next frame is handled.
\<close>

theorem no_candidates_frame:
  assumes "toCvShare cv msg = Some frame" "detected cv frame s = []"
    "debug s \<longrightarrow> \<not> tuning_key key" "in_int32 (theshold_block_size s + 2)"
  shows
    "fst (onFrame cv msg now key s) = [Pub_visible False] \<and>
     theshold_block_size (snd (onFrame cv msg now key s)) =
       (if theshold_block_size s + 2 > theshold_block_size_max s then theshold_block_size_min s
        else theshold_block_size s + 2) \<and>
     known (snd (onFrame cv msg now key s)) = known s \<and>
     calibration (snd (onFrame cv msg now key s)) = calibration s \<and>
     distortion (snd (onFrame cv msg now key s)) = distortion s \<and>
     (\<not> debug s \<longrightarrow>
        snd (onFrame cv msg now key s) =
          s\<lparr>theshold_block_size :=
              (if theshold_block_size s + 2 > theshold_block_size_max s
               then theshold_block_size_min s else theshold_block_size s + 2)\<rparr>)"
proof -
  have i: "int32 (theshold_block_size s + 2) = theshold_block_size s + 2"
    using assms(4) by (rule int32_id)
  have p: "fst (onFrame cv msg now key s) = [Pub_visible False]"
    using assms(1,2) by (rule onFrame_published)
  have b: "theshold_block_size (snd (onFrame cv msg now key s)) =
       (if theshold_block_size s + 2 > theshold_block_size_max s then theshold_block_size_min s
        else theshold_block_size s + 2)"
    using onFrame_step [OF assms(1,3,4), of now] assms(2) by simp
  have f: "known (snd (onFrame cv msg now key s)) = known s \<and>
     calibration (snd (onFrame cv msg now key s)) = calibration s \<and>
     distortion (snd (onFrame cv msg now key s)) = distortion s"
    using assms(1) by (simp add: onFrame_state debug_keys_frame threshold_update_frame)
  have n: "snd (onFrame cv msg now key s) =
          s\<lparr>theshold_block_size :=
              (if theshold_block_size s + 2 > theshold_block_size_max s
               then theshold_block_size_min s else theshold_block_size s + 2)\<rparr>"
    if "\<not> debug s"
    using assms(1,2) that by (simp add: onFrame_state threshold_update_def i)
  from p b f n show ?thesis by blast
qed

theorem no_candidates_frame_witness:
  "toCvShare (example_cv []) () = Some () \<and>
   detected (example_cv []) () (main_parameters no_parameters) = [] \<and>
   in_int32 (theshold_block_size (main_parameters no_parameters) + 2) \<and>
   onFrame (example_cv []) () 0 (CHR ''w'') (main_parameters no_parameters) =
     ([Pub_visible False], (main_parameters no_parameters)\<lparr>theshold_block_size := 15\<rparr>)"
proof -
  have a: "toCvShare (example_cv []) () = Some ()"
    "detected (example_cv []) () (main_parameters no_parameters) = []"
    by (simp_all add: example_cv_frame)
  have k: "debug (main_parameters no_parameters) \<longrightarrow> \<not> tuning_key (CHR ''w'')"
    by (simp add: default_node)
  have r: "in_int32 (theshold_block_size (main_parameters no_parameters) + 2)"
    by (simp add: default_node in_int32_def)
  note t = no_candidates_frame [OF a k r, of 0]
  have "\<not> debug (main_parameters no_parameters)" by (simp add: default_node)
  with t have "snd (onFrame (example_cv []) () 0 (CHR ''w'') (main_parameters no_parameters)) =
      (main_parameters no_parameters)\<lparr>theshold_block_size := 15\<rparr>"
    by (simp add: default_node)
  with t [THEN conjunct1]
  have "onFrame (example_cv []) () 0 (CHR ''w'') (main_parameters no_parameters) =
     ([Pub_visible False], (main_parameters no_parameters)\<lparr>theshold_block_size := 15\<rparr>)"
    by (simp add: prod_eq_iff)
  with a r show ?thesis by (intro conjI)
qed

subsection \<open>Parsing delimited numbers\<close>

lemma str_find_none: "c \<notin> set f \<Longrightarrow> str_find [c] f = None"
  by (induction f) auto

lemma str_find_field: "c \<notin> set f \<Longrightarrow> str_find [c] (f @ c # rest) = Some (length f)"
  by (induction f) auto

text \<open>
  With a 64-bit \<^verbatim>\<open>size_t\<close> the value of \<open>pos\<close>, below \<open>2^32\<close>, is never \<^verbatim>\<open>npos\<close>: the loop
  runs until \<open>k = count\<close>.
\<close>

lemma never_npos_64: "to_unsigned_int n \<noteq> size_t_max 64"
proof -
  have "to_unsigned_int n < 4294967296" by (simp add: to_unsigned_int_def)
  then show ?thesis by (simp add: size_t_max_def)
qed

lemma loop_64:
  "stringToDoubleArray_loop 64 stod data vals count dl k =
     (if k < count then
        (case stod (take (to_unsigned_int (string_find 64 dl data)) data) of
           Inl e \<Rightarrow> Inl e
         | Inr v \<Rightarrow>
             if k < length vals then
               stringToDoubleArray_loop 64 stod
                 (drop ((to_unsigned_int (string_find 64 dl data) + length dl) mod 2 ^ 64) data)
                 (vals[k := v]) count dl (Suc k)
             else Inl Out_of_bounds)
      else Inr vals)"
  by (subst stringToDoubleArray_loop.simps) (simp add: never_npos_64)

lemma loop_done:
  "count \<le> k \<Longrightarrow> stringToDoubleArray_loop bits stod data vals count dl k = Inr vals"
  by (subst stringToDoubleArray_loop.simps) simp

lemma loop_64_last:
  assumes "c \<notin> set f" "length f < 4294967296" "k < count" "k < length vals" "stod f = Inr v"
  shows "stringToDoubleArray_loop 64 stod f vals count [c] k =
     stringToDoubleArray_loop 64 stod [] (vals[k := v]) count [c] (Suc k)"
proof -
  have p: "to_unsigned_int (string_find 64 [c] f) = 4294967295"
    using assms(1) by (simp add: string_find_def str_find_none size_t_max_def to_unsigned_int_def)
  show ?thesis
    using assms by (subst loop_64) (simp add: p)
qed

lemma loop_64_field:
  assumes "c \<notin> set f" "length f < 4294967296" "k < count" "k < length vals" "stod f = Inr v"
  shows "stringToDoubleArray_loop 64 stod (f @ c # rest) vals count [c] k =
     stringToDoubleArray_loop 64 stod rest (vals[k := v]) count [c] (Suc k)"
proof -
  have p: "to_unsigned_int (string_find 64 [c] (f @ c # rest)) = length f"
    using assms(1,2) by (simp add: string_find_def str_find_field to_unsigned_int_def)
  have "(length f + 1) mod 2 ^ 64 = length f + 1"
    using assms(2) by simp
  then show ?thesis
    using assms by (subst loop_64) (simp add: p)
qed

lemma loop_64_fields:
  assumes "flds \<noteq> []" "\<forall>f\<in>set flds. c \<notin> set f" "length (join_fields c flds) < 4294967296"
    "length vals = k + length flds" "map stod flds = map Inr vs"
  shows "stringToDoubleArray_loop 64 stod (join_fields c flds) vals (k + length flds) [c] k =
     Inr (take k vals @ vs)"
  using assms
proof (induction c flds arbitrary: vals k vs rule: join_fields.induct)
  case (1 c)
  then show ?case by simp
next
  case (2 c f)
  then obtain v where v: "vs = [v]" "stod f = Inr v" by (cases vs) auto
  have "stringToDoubleArray_loop 64 stod f vals (k + 1) [c] k =
     stringToDoubleArray_loop 64 stod [] (vals[k := v]) (k + 1) [c] (Suc k)"
    using 2 v by (intro loop_64_last) simp_all
  also have "\<dots> = Inr (vals[k := v])" by (simp add: loop_done)
  also have "vals[k := v] = take k vals @ [v]"
    using 2(4) by (simp add: upd_conv_take_nth_drop)
  finally show ?case by (simp add: v)
next
  case (3 c f g fs)
  then obtain v vs' where v: "vs = v # vs'" "stod f = Inr v" "map stod (g # fs) = map Inr vs'"
    by (cases vs) auto
  have len: "length f < 4294967296" using 3(4) by simp
  have "stringToDoubleArray_loop 64 stod (f @ c # join_fields c (g # fs)) vals
       (k + length (f # g # fs)) [c] k =
     stringToDoubleArray_loop 64 stod (join_fields c (g # fs)) (vals[k := v])
       (k + length (f # g # fs)) [c] (Suc k)"
    using 3 v len by (intro loop_64_field) simp_all
  also have "\<dots> = stringToDoubleArray_loop 64 stod (join_fields c (g # fs)) (vals[k := v])
       (Suc k + length (g # fs)) [c] (Suc k)"
    by simp
  also have "\<dots> = Inr (take (Suc k) (vals[k := v]) @ vs')"
  proof (rule 3(1))
    show "g # fs \<noteq> []" by simp
    show "\<forall>f\<in>set (g # fs). c \<notin> set f" using 3(3) by simp
    show "length (join_fields c (g # fs)) < 4294967296" using 3(4) by simp
    show "length (vals[k := v]) = Suc k + length (g # fs)" using 3(5) by simp
    show "map stod (g # fs) = map Inr vs'" by (rule v(3))
  qed
  also have "take (Suc k) (vals[k := v]) = take k vals @ [v]"
    using 3(5) by (simp add: take_Suc_conv_app_nth)
  finally show ?case by (simp add: v)
qed

lemma empty_64:
  "0 < count \<Longrightarrow> stod [] = Inl e \<Longrightarrow> stringToDoubleArray 64 stod [] vals count dl = Inl e"
  unfolding stringToDoubleArray_def by (subst loop_64) simp

text \<open>With a 32-bit \<^verbatim>\<open>size_t\<close> the loop ends when the delimiter is not found.\<close>

lemma empty_32: "dl \<noteq> [] \<Longrightarrow> stringToDoubleArray 32 stod [] vals count dl = Inr vals"
  unfolding stringToDoubleArray_def
  by (subst stringToDoubleArray_loop.simps)
    (simp add: string_find_def size_t_max_def to_unsigned_int_def)

lemma loop_32_last:
  assumes "c \<notin> set f"
  shows "stringToDoubleArray_loop 32 stod f vals count [c] k = Inr vals"
proof -
  have p: "to_unsigned_int (string_find 32 [c] f) = size_t_max 32"
    using assms by (simp add: string_find_def str_find_none size_t_max_def to_unsigned_int_def)
  show ?thesis
    by (subst stringToDoubleArray_loop.simps) (simp add: p)
qed

lemma loop_32_field:
  assumes "c \<notin> set f" "length f < 4294967295" "k < count" "k < length vals" "stod f = Inr v"
  shows "stringToDoubleArray_loop 32 stod (f @ c # rest) vals count [c] k =
     stringToDoubleArray_loop 32 stod rest (vals[k := v]) count [c] (Suc k)"
proof -
  have p: "to_unsigned_int (string_find 32 [c] (f @ c # rest)) = length f"
    using assms(1,2) by (simp add: string_find_def str_find_field to_unsigned_int_def)
  have n: "length f \<noteq> size_t_max 32" using assms(2) by (simp add: size_t_max_def)
  have "(length f + 1) mod 2 ^ 32 = length f + 1"
    using assms(2) by simp
  then show ?thesis
    using assms n by (subst stringToDoubleArray_loop.simps) (simp add: p)
qed

text \<open>
  On a platform with a 32-bit \<^verbatim>\<open>size_t\<close> only the fields before the last are written:
  the slots from \<open>n - 1\<close> on keep what they held.
\<close>

lemma loop_32_fields:
  assumes "flds \<noteq> []" "\<forall>f\<in>set flds. c \<notin> set f" "length (join_fields c flds) < 4294967295"
    "k + length flds \<le> Suc (length vals)" "k + length flds \<le> Suc count"
    "map stod (butlast flds) = map Inr vs"
  shows "stringToDoubleArray_loop 32 stod (join_fields c flds) vals count [c] k =
     Inr (take k vals @ vs @ drop (k + length vs) vals)"
  using assms
proof (induction c flds arbitrary: vals k vs rule: join_fields.induct)
  case (1 c)
  then show ?case by simp
next
  case (2 c f)
  then show ?case by (simp add: loop_32_last)
next
  case (3 c f g fs)
  then obtain v vs' where v: "vs = v # vs'" "stod f = Inr v"
      "map stod (butlast (g # fs)) = map Inr vs'"
    by (cases vs) auto
  have len: "length f < 4294967295" using 3(4) by simp
  have "stringToDoubleArray_loop 32 stod (f @ c # join_fields c (g # fs)) vals count [c] k =
     stringToDoubleArray_loop 32 stod (join_fields c (g # fs)) (vals[k := v]) count [c] (Suc k)"
    using 3 v len by (intro loop_32_field) simp_all
  also have "\<dots> =
     Inr (take (Suc k) (vals[k := v]) @ vs' @ drop (Suc k + length vs') (vals[k := v]))"
  proof (rule 3(1))
    show "g # fs \<noteq> []" by simp
    show "\<forall>f\<in>set (g # fs). c \<notin> set f" using 3(3) by simp
    show "length (join_fields c (g # fs)) < 4294967295" using 3(4) by simp
    show "Suc k + length (g # fs) \<le> Suc (length (vals[k := v]))" using 3(5) by simp
    show "Suc k + length (g # fs) \<le> Suc count" using 3(6) by simp
    show "map stod (butlast (g # fs)) = map Inr vs'" by (rule v(3))
  qed
  also have "take (Suc k) (vals[k := v]) = take k vals @ [v]"
    using 3(5) by (simp add: take_Suc_conv_app_nth)
  also have "drop (Suc k + length vs') (vals[k := v]) = drop (k + length vs) vals"
    by (simp add: v)
  finally show ?case by (simp add: v)
qed

lemma stringToDoubleArray_32:
  assumes "flds \<noteq> []" "\<forall>f\<in>set flds. c \<notin> set f" "length (join_fields c flds) < 4294967295"
    "length flds \<le> length vals" "length flds \<le> count"
    "map stod (butlast flds) = map Inr vs"
  shows "stringToDoubleArray 32 stod (join_fields c flds) vals count [c] =
     Inr (vs @ drop (length flds - 1) vals)"
proof -
  have "length vs = length flds - 1"
    using arg_cong [OF assms(6), of length] by simp
  then show ?thesis
    using loop_32_fields [of flds c 0 vals count stod vs] assms
    by (simp add: stringToDoubleArray_def)
qed

text \<open>
  C10. The claim: only the fields followed by a delimiter are written; of \<open>n\<close> fields
  without a trailing delimiter, with \<open>count \<ge> n\<close>, the last is never parsed, and a string
  without delimiter writes no slot.

  That is what the loop does where \<^verbatim>\<open>size_t\<close> has 32 bits (\<open>stringToDoubleArray_32\<close>). Where
  it has 64 bits, \<open>pos\<close> holds \<open>2^32 - 1\<close> when the delimiter is not found, which is not
  \<^verbatim>\<open>npos\<close>: the loop goes on, \<open>substr(0, pos)\<close> is the rest of the string and the last field
  is parsed: \<open>1_2_3\<close> with \<open>count = 3\<close> fills all three slots, and \<open>7\<close> with \<open>count = 1\<close> the
  only one.
\<close>

theorem stringToDoubleArray_counterexample:
  "stringToDoubleArray 64 stod_digits ''1_2_3'' [0, 0, 0] 3 ''_'' = Inr [1, 2, 3] \<and>
   stringToDoubleArray 64 stod_digits ''7'' [0] 1 ''_'' = Inr [7]"
  by (simp add: stringToDoubleArray_def stringToDoubleArray_loop.simps string_find_def
      size_t_max_def to_unsigned_int_def stod_digits_def digit_val_def)

text \<open>
  C10, amended. With a 64-bit \<^verbatim>\<open>size_t\<close>: for \<open>n \<ge> 1\<close> fields that do not contain the
  delimiter, joined by a one-character delimiter with none after the last, in a string
  shorter than \<open>2^32\<close>, and \<open>count = n\<close> the size of the array, \<open>stringToDoubleArray\<close> writes
  all \<open>n\<close> slots, slot \<open>i\<close> with the value \<^verbatim>\<open>stod\<close> gives for field \<open>i\<close>, the last field
  included: parsing \<open>n\<close> values takes \<open>n - 1\<close> delimiters.
\<close>

theorem stringToDoubleArray_all_fields:
  assumes "flds \<noteq> []" "\<forall>f\<in>set flds. c \<notin> set f" "length (join_fields c flds) < 4294967296"
    "length vals = length flds" "map stod flds = map Inr vs"
  shows "stringToDoubleArray 64 stod (join_fields c flds) vals (length flds) [c] = Inr vs"
  using loop_64_fields [of flds c vals 0 stod vs] assms
  by (simp add: stringToDoubleArray_def)

theorem stringToDoubleArray_all_fields_witness:
  "join_fields (CHR ''_'') [''10'', ''20''] = ''10_20'' \<and>
   map stod_digits [''10'', ''20''] = map Inr [10, 20] \<and>
   stringToDoubleArray 64 stod_digits ''10_20'' [5, 5] 2 ''_'' = Inr [10, 20]"
proof -
  have j: "join_fields (CHR ''_'') [''10'', ''20''] = ''10_20''" by simp
  have m: "map stod_digits [''10'', ''20''] = map Inr [10, 20]"
    by (simp add: stod_digits_def digit_val_def)
  have "stringToDoubleArray 64 stod_digits (join_fields (CHR ''_'') [''10'', ''20'']) [5, 5]
     (length [''10'', ''20'']) [CHR ''_''] = Inr [10, 20]"
    by (rule stringToDoubleArray_all_fields [OF _ _ _ _ m]) simp_all
  then have "stringToDoubleArray 64 stod_digits ''10_20'' [5, 5] 2 ''_'' = Inr [10, 20]"
    by (simp add: numeral_2_eq_2)
  with j m show ?thesis by (intro conjI)
qed

subsection \<open>The distortion override\<close>

text \<open>
  The string of the parameter never reaches the parser: two parameter values that are
  not empty give the same result, whatever the platform.
\<close>

lemma main_distortion_ignores_string:
  assumes "get_parameter_or (p_distortion p) [] \<noteq> []" "get_parameter_or (p_distortion p') [] \<noteq> []"
  shows "main_distortion bits stod uninit p s = main_distortion bits stod uninit p' s"
  using assms by (simp add: main_distortion_def)

text \<open>
  With a 32-bit \<^verbatim>\<open>size_t\<close> the parser returns at once, and the five values the array
  held before, which nothing initialised, become the distortion coefficients.
\<close>

lemma main_distortion_32:
  assumes "get_parameter_or (p_distortion p) [] \<noteq> []"
  shows "main_distortion 32 stod uninit p s =
     Inr (s\<lparr>distortion := set_distortion uninit (distortion s), calibrated := True\<rparr>)"
  using assms by (simp add: main_distortion_def empty_32)

text \<open>With a 64-bit \<^verbatim>\<open>size_t\<close> the parser calls \<^verbatim>\<open>stod\<close> on the empty string.\<close>

lemma main_distortion_64:
  assumes "stod [] = Inl e" "get_parameter_or (p_distortion p) [] \<noteq> []"
  shows "main_distortion 64 stod uninit p s = Inl e"
  using assms by (simp add: main_distortion_def empty_64)

text \<open>
  C9. The claim: with a non-empty distortion override the parser is handed a new, empty
  string, so that no field of the override reaches the distortion matrix, and
  \<^verbatim>\<open>calibrated\<close> is set all the same. The first part holds (\<open>main_distortion_ignores_string\<close>).
  With a 64-bit \<^verbatim>\<open>size_t\<close> the second does not: for the override \<open>1_2_3_4_5\<close> the parser
  enters its loop on the empty string, \<^verbatim>\<open>stod("")\<close> throws \<^verbatim>\<open>std::invalid_argument\<close>, and
  \<^verbatim>\<open>main\<close>, which catches nothing, ends before it writes the matrix or the flag.
\<close>

theorem distortion_override_throws:
  "main_distortion 64 stod_digits uninit (p\<lparr>p_distortion := Some ''1_2_3_4_5''\<rparr>) s =
     Inl Invalid_argument"
  by (rule main_distortion_64) (simp_all add: stod_digits_def get_parameter_or_def)

end
